theory Spec2Isabelle
  imports Complex_Main
begin

section \<open>The MLP speculator of text-generation-inference (layers/mlp.py)\<close>

text \<open>
  The module holds three classes: \<open>MLPSpeculatorLayerNorm\<close> (a root-mean-square
  normaliser), \<open>MLPSpeculatorModel\<close> (the chain of prediction heads) and
  \<open>MLPSpeculatorHead\<close> (the language-model head next to the speculator, and the
  loader). Python floats are read as real numbers throughout: the theorems are about
  the sequence of operations the code performs, not about rounding.
\<close>

subsection \<open>Errors and results\<close>

datatype error =
    RuntimeError string
  | AssertionError string
  | TypeError string
  | KeyError string
  | AttributeError string
  | IndexError
  | ZeroDivisionError

text \<open>A Python call either raises (\<open>Inl\<close>) or returns (\<open>Inr\<close>); \<open>rbind\<close> sequences two calls.\<close>

definition rbind :: "error + 'a \<Rightarrow> ('a \<Rightarrow> error + 'b) \<Rightarrow> error + 'b" where
  "rbind r f = (case r of Inl e \<Rightarrow> Inl e | Inr x \<Rightarrow> f x)"

definition nth_res :: "'a list \<Rightarrow> nat \<Rightarrow> error + 'a" where
  \<comment> \<open>\<open>xs[i]\<close> for a non-negative index\<close>
  "nth_res xs i = (if i < length xs then Inr (xs ! i) else Inl IndexError)"

definition digit_char :: "nat \<Rightarrow> char" where
  "digit_char n = ''0123456789'' ! n"

fun str_nat :: "nat \<Rightarrow> string" where
  \<comment> \<open>\<open>str(n)\<close>, as an f-string prints an integer\<close>
  "str_nat n = (if n < 10 then [digit_char n] else str_nat (n div 10) @ [digit_char (n mod 10)])"

declare str_nat.simps [simp del]

subsection \<open>Tensors\<close>

text \<open>
  A torch tensor is its shape and its entries in row-major order. The torch functions
  the module calls are written out below with the shape checks torch performs; a failed
  check is torch's RuntimeError.
\<close>

record 'a tensor =
  shape :: "nat list"
  data :: "'a list"

definition rows :: "nat \<Rightarrow> nat \<Rightarrow> 'a list \<Rightarrow> 'a list list" where
  \<comment> \<open>the first \<open>m\<close> consecutive blocks of \<open>d\<close> entries\<close>
  "rows m d xs = map (\<lambda>j. take d (drop (j * d) xs)) [0..<m]"

definition last_dim :: "nat list \<Rightarrow> nat" where
  "last_dim s = (if s = [] then 1 else last s)"

definition last_rows :: "'a tensor \<Rightarrow> 'a list list" where
  \<comment> \<open>the vectors along the last axis\<close>
  "last_rows t = rows (prod_list (butlast (shape t))) (last_dim (shape t)) (data t)"

definition map_tensor :: "('a \<Rightarrow> 'b) \<Rightarrow> 'a tensor \<Rightarrow> 'b tensor" where
  \<comment> \<open>an elementwise function, or an operation with a Python scalar\<close>
  "map_tensor f t = \<lparr>shape = shape t, data = map f (data t)\<rparr>"

definition pad_shape :: "nat \<Rightarrow> nat list \<Rightarrow> nat list" where
  "pad_shape n s = replicate (n - length s) 1 @ s"

fun bdims :: "nat list \<Rightarrow> nat list \<Rightarrow> nat list option" where
  \<comment> \<open>the broadcast of two shapes of the same rank\<close>
  "bdims [] [] = Some []"
| "bdims (s # ss) (t # ts) =
     (if s = t \<or> t = 1 then map_option ((#) s) (bdims ss ts)
      else if s = 1 then map_option ((#) t) (bdims ss ts)
      else None)"
| "bdims _ _ = None"

fun expand_to :: "nat list \<Rightarrow> nat list \<Rightarrow> 'a list \<Rightarrow> 'a list" where
  \<comment> \<open>the entries of a tensor of the first shape, repeated along its axes of size 1 up to the second shape\<close>
  "expand_to (s # ss) (t # ts) xs =
     (if s = t then concat (map (expand_to ss ts) (rows s (prod_list ss) xs))
      else concat (replicate t (expand_to ss ts xs)))"
| "expand_to _ _ xs = xs"

definition binop :: "('a \<Rightarrow> 'b \<Rightarrow> 'c) \<Rightarrow> 'a tensor \<Rightarrow> 'b tensor \<Rightarrow> error + 'c tensor" where
  \<comment> \<open>an elementwise operation of two tensors, with torch's broadcasting\<close>
  "binop f a b =
     (let n = max (length (shape a)) (length (shape b));
          sa = pad_shape n (shape a);
          sb = pad_shape n (shape b)
      in case bdims sa sb of
           None \<Rightarrow> Inl (RuntimeError ''The size of tensor a must match the size of tensor b'')
         | Some r \<Rightarrow>
             Inr \<lparr>shape = r,
                  data = map (\<lambda>(x, y). f x y) (zip (expand_to sa r (data a)) (expand_to sb r (data b)))\<rparr>)"

definition mean_last_keepdim :: "real tensor \<Rightarrow> real tensor" where
  \<comment> \<open>\<open>t.mean(-1, keepdim=True)\<close>; the mean of an empty vector is NaN in torch and 0 here\<close>
  "mean_last_keepdim t =
     \<lparr>shape = (if shape t = [] then [] else butlast (shape t) @ [1]),
      data = map (\<lambda>r. sum_list r / real (last_dim (shape t))) (last_rows t)\<rparr>"

definition log_softmax_row :: "real list \<Rightarrow> real list" where
  "log_softmax_row r = map (\<lambda>x. x - ln (sum_list (map exp r))) r"

definition log_softmax :: "real tensor \<Rightarrow> real tensor" where
  \<comment> \<open>\<open>F.log_softmax(t, dim=-1)\<close>\<close>
  "log_softmax t = \<lparr>shape = shape t, data = concat (map log_softmax_row (last_rows t))\<rparr>"

text \<open>
  \<open>torch.topk\<close> returns the positions of the \<open>k\<close> largest entries of every vector, largest
  first, and leaves open which of several equal entries it takes and in what order. The
  choice torch makes is therefore a parameter \<open>sel\<close> of everything that calls it: \<open>sel k rs\<close>
  is the list of positions chosen in each of the vectors \<open>rs\<close>. What torch promises of it
  is \<open>topk_contract\<close>, stated further down.
\<close>

type_synonym selection = "nat \<Rightarrow> real list list \<Rightarrow> nat list list"

definition topk :: "selection \<Rightarrow> nat \<Rightarrow> real tensor \<Rightarrow> error + int tensor" where
  \<comment> \<open>the indices returned by \<open>t.topk(k, dim=-1)\<close>\<close>
  "topk sel k t =
     (if shape t = [] \<or> last_dim (shape t) < k
      then Inl (RuntimeError ''selected index k out of range'')
      else Inr \<lparr>shape = butlast (shape t) @ [k],
                data = concat (map (map int) (sel k (last_rows t)))\<rparr>)"

primrec first_max :: "real \<Rightarrow> nat \<Rightarrow> nat \<Rightarrow> real list \<Rightarrow> nat" where
  "first_max bv bi j [] = bi"
| "first_max bv bi j (x # xs) =
     (if bv < x then first_max x j (Suc j) xs else first_max bv bi (Suc j) xs)"

definition argmax_row :: "real list \<Rightarrow> nat" where
  \<comment> \<open>the first position of the largest entry\<close>
  "argmax_row r = (case r of [] \<Rightarrow> 0 | x # xs \<Rightarrow> first_max x 0 1 xs)"

definition argmax :: "real tensor \<Rightarrow> error + int tensor" where
  \<comment> \<open>\<open>t.argmax(dim=-1)\<close>\<close>
  "argmax t =
     (if shape t = [] then Inr \<lparr>shape = [], data = [0]\<rparr>
      else if last (shape t) = 0
      then Inl IndexError
      else Inr \<lparr>shape = butlast (shape t), data = map (\<lambda>r. int (argmax_row r)) (last_rows t)\<rparr>)"

definition size_dim :: "'a tensor \<Rightarrow> nat \<Rightarrow> error + nat" where
  \<comment> \<open>\<open>t.size(i)\<close> and \<open>t.shape[i]\<close>\<close>
  "size_dim t i = nth_res (shape t) i"

definition unsqueeze :: "nat \<Rightarrow> 'a tensor \<Rightarrow> error + 'a tensor" where
  "unsqueeze i t =
     (if i \<le> length (shape t)
      then Inr \<lparr>shape = take i (shape t) @ [1] @ drop i (shape t), data = data t\<rparr>
      else Inl IndexError)"

definition expand_dim2 :: "nat \<Rightarrow> 'a tensor \<Rightarrow> error + 'a tensor" where
  \<comment> \<open>\<open>t.expand(-1, -1, k, -1)\<close>: four sizes for a tensor of rank four, the third axis set to \<open>k\<close>\<close>
  "expand_dim2 k t =
     (case shape t of
        [a, b, c, d] \<Rightarrow>
          if c = k \<or> c = 1
          then Inr \<lparr>shape = [a, b, k, d], data = expand_to [a, b, c, d] [a, b, k, d] (data t)\<rparr>
          else Inl (RuntimeError ''The expanded size of the tensor must match the existing size'')
      | _ \<Rightarrow> Inl (RuntimeError ''expand: the number of sizes provided must match the rank''))"

definition reshape_infer :: "nat list \<Rightarrow> 'a tensor \<Rightarrow> error + 'a tensor" where
  \<comment> \<open>\<open>t.reshape(-1, *rest)\<close> and \<open>t.view(-1, *rest)\<close> of a contiguous tensor\<close>
  "reshape_infer rest t =
     (let total = prod_list (shape t); known = prod_list rest
      in if known = 0 then Inl (RuntimeError ''cannot reshape: the unspecified dimension is ambiguous'')
         else if total mod known \<noteq> 0 then Inl (RuntimeError ''shape is invalid for input size'')
         else Inr \<lparr>shape = (total div known) # rest, data = data t\<rparr>)"

definition empty_tensor :: "'a \<Rightarrow> nat list \<Rightarrow> 'a tensor" where
  \<comment> \<open>\<open>torch.empty(*s)\<close>; every entry holds the unspecified content \<open>u\<close>\<close>
  "empty_tensor u s = \<lparr>shape = s, data = replicate (prod_list s) u\<rparr>"

definition setitem_col :: "'a tensor \<Rightarrow> nat \<Rightarrow> 'a tensor \<Rightarrow> error + 'a tensor" where
  \<comment> \<open>\<open>dst[:, i] = src\<close> for a destination of rank three: the source loses its leading axes of
      size 1 when its shape is not the slice's, and is then expanded to the slice\<close>
  "setitem_col dst i src =
     (case shape dst of
        [b, n, v] \<Rightarrow>
          if n \<le> i then Inl IndexError
          else
            let s = (if shape src = [b, v] then shape src else dropWhile (\<lambda>d. d = 1) (shape src))
            in if 2 < length s \<or> (\<exists>(x, y) \<in> set (zip (pad_shape 2 s) [b, v]). x \<noteq> y \<and> x \<noteq> 1)
               then Inl (RuntimeError ''shape mismatch: value tensor cannot be broadcast to indexing result'')
               else
                 let vals = rows b v (expand_to (pad_shape 2 s) [b, v] (data src));
                     blocks = rows b (n * v) (data dst)
                 in Inr \<lparr>shape = [b, n, v],
                         data = concat (map (\<lambda>(blk, r). take (i * v) blk @ r @ drop (i * v + v) blk)
                                   (zip blocks vals))\<rparr>
      | _ \<Rightarrow> Inl IndexError)"

subsection \<open>The layers the module is built from\<close>

text \<open>
  \<open>Weights\<close>, \<open>TensorParallelEmbedding\<close>, \<open>FastLinear\<close> and \<open>TensorParallelHead\<close> are
  classes of the server that live outside \<open>layers/mlp.py\<close>. Every layer object carries the
  number it was given when its constructor ran (\<open>oid\<close>): two objects are the same Python
  object exactly when their numbers agree, and the constructors below take the next free
  number and hand back the one after.
\<close>

record weights =
  routing :: "string \<rightharpoonup> string"
  files :: "string \<Rightarrow> (string \<rightharpoonup> real tensor)"

definition get_tensor :: "weights \<Rightarrow> string \<Rightarrow> error + real tensor" where
  \<comment> \<open>Modelled from the spec: the parameter-loading collaborator (\<open>Weights.get_tensor\<close>) supplies,
      by name, the raw tensor from the file the name is routed to.\<close>
  "get_tensor w name =
     (case routing w name of
        None \<Rightarrow> Inl (RuntimeError (''weight '' @ name @ '' does not exist''))
      | Some f \<Rightarrow>
          (case files w f name of
             None \<Rightarrow> Inl (RuntimeError (''weight '' @ name @ '' does not exist''))
           | Some t \<Rightarrow> Inr t))"

record embedding =
  emb_oid :: nat
  emb_table :: "real tensor"

record linear =
  lin_oid :: nat
  lin_weight :: "real tensor"

definition TensorParallelEmbedding :: "string \<Rightarrow> weights \<Rightarrow> nat \<Rightarrow> error + embedding" where
  \<comment> \<open>Modelled from the spec: the embedding table (vocab, embed_dim) read from \<open>{prefix}.weight\<close>.\<close>
  "TensorParallelEmbedding prefix w oid =
     rbind (get_tensor w (prefix @ ''.weight'')) (\<lambda>t. Inr \<lparr>emb_oid = oid, emb_table = t\<rparr>)"

definition embedding_forward :: "embedding \<Rightarrow> int tensor \<Rightarrow> error + real tensor" where
  \<comment> \<open>Modelled from the spec: the embedding-lookup capability, given a table and integer ids,
      returns the gathered rows. An id outside the table is an IndexError.\<close>
  "embedding_forward e ids =
     (case shape (emb_table e) of
        [v, d] \<Rightarrow>
          if \<forall>i \<in> set (data ids). 0 \<le> i \<and> i < int v
          then Inr \<lparr>shape = shape ids @ [d],
                    data = concat (map (\<lambda>i. take d (drop (nat i * d) (data (emb_table e)))) (data ids))\<rparr>
          else Inl IndexError
      | _ \<Rightarrow> Inl (RuntimeError ''embedding: weight must be 2-D''))"

definition FastLinear_load :: "string \<Rightarrow> weights \<Rightarrow> nat \<Rightarrow> error + linear" where
  \<comment> \<open>Modelled from the spec: a linear map without bias, its matrix read from \<open>{prefix}.weight\<close>
      (\<open>FastLinear.load(config, prefix, weights, bias=False)\<close>).\<close>
  "FastLinear_load prefix w oid =
     rbind (get_tensor w (prefix @ ''.weight'')) (\<lambda>t. Inr \<lparr>lin_oid = oid, lin_weight = t\<rparr>)"

definition TensorParallelHead_load :: "string \<Rightarrow> weights \<Rightarrow> nat \<Rightarrow> error + linear" where
  \<comment> \<open>Modelled from the spec: the vocabulary projection has the shape contract of a linear
      projection and maps to the full vocabulary.\<close>
  "TensorParallelHead_load prefix w oid =
     rbind (get_tensor w (prefix @ ''.weight'')) (\<lambda>t. Inr \<lparr>lin_oid = oid, lin_weight = t\<rparr>)"

definition dot :: "real list \<Rightarrow> real list \<Rightarrow> real" where
  "dot w r = sum_list (map (\<lambda>(a, b). a * b) (zip w r))"

definition linear_forward :: "linear \<Rightarrow> real tensor \<Rightarrow> error + real tensor" where
  \<comment> \<open>Modelled from the spec: the linear-projection capability returns the matrix-multiplied
      output; the matrix is (out, in) and acts on the last axis.\<close>
  "linear_forward l x =
     (case shape (lin_weight l) of
        [out, inn] \<Rightarrow>
          if shape x \<noteq> [] \<and> last (shape x) = inn
          then Inr \<lparr>shape = butlast (shape x) @ [out],
                    data = concat (map (\<lambda>r. map (\<lambda>wr. dot wr r) (rows out inn (data (lin_weight l))))
                                    (last_rows x))\<rparr>
          else Inl (RuntimeError ''mat1 and mat2 shapes cannot be multiplied'')
      | _ \<Rightarrow> Inl (RuntimeError ''linear: weight must be 2-D''))"

subsection \<open>MLPSpeculatorLayerNorm\<close>

record layernorm =
  ln_oid :: nat
  elementwise_scale_and_shift :: bool
  ln_weight :: "real tensor option"
  ln_bias :: "real tensor option"
  eps :: real

datatype pyval = PStr string | PInt nat

fun fmt :: "pyval \<Rightarrow> string" where
  "fmt (PStr s) = s"
| "fmt (PInt n) = str_nat n"

record speculator_config =
  cfg_tie_weights :: "bool option"
  cfg_scale_input :: "bool option"
  cfg_inner_dim :: "nat option"

record speculator_files =
  path :: string
  model_paths :: "string list"

record config =
  cfg_hidden_size :: nat
  cfg_vocab_size :: nat
  cfg_speculator_config :: speculator_config
  cfg_speculator :: speculator_files

definition MLPSpeculatorLayerNorm_init ::
  "pyval option \<Rightarrow> config option \<Rightarrow> weights option \<Rightarrow> real \<Rightarrow> bool \<Rightarrow> nat \<Rightarrow> error + layernorm" where
  \<comment> \<open>\<open>__init__(self, prefix, config, weights, eps=1e-06, elementwise_scale_and_shift=True)\<close>
      (lines 30-43). \<open>prefix\<close>, \<open>config\<close> and \<open>weights\<close> have no default: a call that leaves
      one out (\<open>None\<close> here) is a TypeError before the body runs.\<close>
  "MLPSpeculatorLayerNorm_init prefix cfg ws e affine oid =
     (case (prefix, cfg, ws) of
        (Some p, Some c, Some w) \<Rightarrow>
          if affine
          then rbind (get_tensor w (fmt p @ ''.weight'')) (\<lambda>wt.
               rbind (get_tensor w (fmt p @ ''.bias'')) (\<lambda>bs.
               Inr \<lparr>ln_oid = oid, elementwise_scale_and_shift = affine,
                    ln_weight = Some wt, ln_bias = Some bs, eps = e\<rparr>))
          else Inr \<lparr>ln_oid = oid, elementwise_scale_and_shift = affine,
                    ln_weight = None, ln_bias = None, eps = e\<rparr>
      | _ \<Rightarrow> Inl (TypeError ''__init__() missing required positional arguments''))"

definition attr :: "string \<Rightarrow> 'a option \<Rightarrow> error + 'a" where
  \<comment> \<open>reading an attribute that \<open>__init__\<close> sets only on one branch\<close>
  "attr name v = (case v of None \<Rightarrow> Inl (AttributeError name) | Some x \<Rightarrow> Inr x)"

definition MLPSpeculatorLayerNorm_forward :: "layernorm \<Rightarrow> real tensor \<Rightarrow> error + real tensor" where
  \<comment> \<open>lines 45-52; \<open>type_as\<close> changes nothing over the reals\<close>
  "MLPSpeculatorLayerNorm_forward l x =
     rbind (binop (*) x
              (map_tensor (\<lambda>v. 1 / sqrt v)
                 (map_tensor (\<lambda>v. v + eps l) (mean_last_keepdim (map_tensor (\<lambda>v. v\<^sup>2) x))))) (\<lambda>xf.
       if elementwise_scale_and_shift l
       then rbind (attr ''weight'' (ln_weight l)) (\<lambda>w.
            rbind (binop (*) w xf) (\<lambda>x1.
            rbind (attr ''bias'' (ln_bias l)) (\<lambda>b.
            binop (+) x1 b)))
       else Inr xf)"

subsection \<open>MLPSpeculatorModel\<close>

definition SQRT2 :: real where
  \<comment> \<open>line 10: \<open>SQRT2 = 2**0.5\<close>\<close>
  "SQRT2 = 2 powr (1 / 2)"

definition erf :: "real \<Rightarrow> real" where
  \<comment> \<open>the error function, by its power series\<close>
  "erf x = 2 / sqrt pi * (\<Sum>n. (- 1) ^ n * x ^ (2 * n + 1) / (fact n * real (2 * n + 1)))"

definition GELU :: "real \<Rightarrow> real" where
  \<comment> \<open>\<open>nn.GELU()\<close>: x times the standard normal distribution function at x\<close>
  "GELU x = x * (1 / 2) * (1 + erf (x / sqrt 2))"

record MLPSpeculatorModel =
  n_predict :: nat
  hidden_size :: nat
  tie_weights :: bool
  scale_input :: bool
  emb :: "embedding list"
  proj :: "linear list"
  head :: "linear list"
  ln :: "layernorm list"
  ln0 :: "layernorm option"
  state_weight :: real
  emb_weight :: real
  activation :: "real \<Rightarrow> real"
  vsize :: nat
  inner_dim :: nat
  top_k_tokens_per_head :: "nat list"

definition state_weight_of :: "nat \<Rightarrow> error + real" where
  \<comment> \<open>line 129: \<open>0.5 ** (0.5 / self.n_predict)\<close>; the division raises when there is no head\<close>
  "state_weight_of n =
     (if n = 0 then Inl ZeroDivisionError else Inr ((1 / 2) powr ((1 / 2) / real n)))"

definition emb_weight_of :: "real \<Rightarrow> real" where
  \<comment> \<open>line 130: \<open>math.sqrt(1 - self.state_weight**2)\<close>\<close>
  "emb_weight_of sw = sqrt (1 - sw\<^sup>2)"

fun build_list :: "(nat \<Rightarrow> nat \<Rightarrow> error + 'a) \<Rightarrow> nat list \<Rightarrow> nat \<Rightarrow> error + ('a list \<times> nat)" where
  \<comment> \<open>a list comprehension \<open>[mk(i) for i in range(n)]\<close>: one new object per index\<close>
  "build_list mk [] oid = Inr ([], oid)"
| "build_list mk (i # is) oid =
     rbind (mk i oid) (\<lambda>x.
     rbind (build_list mk is (Suc oid)) (\<lambda>(xs, oid'). Inr (x # xs, oid')))"

definition dict_get :: "'a option \<Rightarrow> 'a \<Rightarrow> 'a" where
  \<comment> \<open>\<open>d.get(key, default)\<close>, the entry being \<open>None\<close> when the key is absent\<close>
  "dict_get v dflt = (case v of None \<Rightarrow> dflt | Some x \<Rightarrow> x)"

definition dict_item :: "string \<Rightarrow> 'a option \<Rightarrow> error + 'a" where
  \<comment> \<open>\<open>d[key]\<close>\<close>
  "dict_item key v = (case v of None \<Rightarrow> Inl (KeyError key) | Some x \<Rightarrow> Inr x)"

definition build_layers ::
  "config \<Rightarrow> nat \<Rightarrow> string \<Rightarrow> weights \<Rightarrow> bool \<Rightarrow> nat \<Rightarrow>
   error + ((embedding list \<times> linear list \<times> linear list \<times> layernorm list) \<times> nat)" where
  \<comment> \<open>lines 63-123: the two ways of building the per-head layers\<close>
  "build_layers cfg n prefix w tie oid =
     (if tie then
        rbind (TensorParallelEmbedding (prefix @ ''.emb.0'') w oid) (\<lambda>embedding.
        rbind (FastLinear_load (prefix @ ''.proj.0'') w (oid + 1)) (\<lambda>proj_first.
        rbind (FastLinear_load (prefix @ ''.proj.1'') w (oid + 2)) (\<lambda>proj_tied.
        rbind (FastLinear_load (prefix @ ''.head.0'') w (oid + 3)) (\<lambda>hd0.
        rbind (MLPSpeculatorLayerNorm_init (Some (PStr (prefix @ ''.ln.0''))) (Some cfg) (Some w)
                 (1 / 10 ^ 6) True (oid + 4)) (\<lambda>ln0.
        Inr ((replicate n embedding,
              [proj_first] @ replicate (n - 1) proj_tied,
              replicate n hd0,
              replicate n ln0), oid + 5))))))
      else
        rbind (build_list (\<lambda>i. TensorParallelEmbedding (prefix @ ''.emb.'' @ str_nat i) w) [0..<n] oid)
          (\<lambda>(embs, o1).
        rbind (build_list (\<lambda>i. FastLinear_load (prefix @ ''.proj.'' @ str_nat i) w) [0..<n] o1)
          (\<lambda>(projs, o2).
        rbind (build_list (\<lambda>i. FastLinear_load (prefix @ ''.head.'' @ str_nat i) w) [0..<n] o2)
          (\<lambda>(heads, o3).
        rbind (build_list (\<lambda>i. MLPSpeculatorLayerNorm_init (Some (PStr (prefix @ ''.ln.'' @ str_nat i)))
                               (Some cfg) (Some w) (1 / 10 ^ 6) True) [0..<n] o3)
          (\<lambda>(lns, o4).
        Inr ((embs, projs, heads, lns), o4))))))"

definition MLPSpeculatorModel_init ::
  "config \<Rightarrow> nat \<Rightarrow> string \<Rightarrow> weights \<Rightarrow> nat \<Rightarrow> error + (MLPSpeculatorModel \<times> nat)" where
  \<comment> \<open>lines 56-135. The second argument is what \<open>get_speculate()\<close> returns; the last one is the
      next free object number, returned updated.\<close>
  "MLPSpeculatorModel_init cfg n prefix w oid =
     (let tie = dict_get (cfg_tie_weights (cfg_speculator_config cfg)) False;
          scale = dict_get (cfg_scale_input (cfg_speculator_config cfg)) False
      in rbind (build_layers cfg n prefix w tie oid) (\<lambda>((embs, projs, heads, lns), o1).
         rbind (if scale
                then rbind (MLPSpeculatorLayerNorm_init (Some (PInt (cfg_hidden_size cfg))) None None
                              (1 / 10 ^ 6) False o1) (\<lambda>l. Inr (Some l, Suc o1))
                else Inr (None, o1)) (\<lambda>(l0, o2).
         rbind (state_weight_of n) (\<lambda>sw.
         rbind (dict_item ''inner_dim'' (cfg_inner_dim (cfg_speculator_config cfg))) (\<lambda>inner.
         Inr (\<lparr>n_predict = n, hidden_size = cfg_hidden_size cfg,
               tie_weights = tie, scale_input = scale,
               emb = embs, proj = projs, head = heads, ln = lns, ln0 = l0,
               state_weight = sw, emb_weight = emb_weight_of sw,
               activation = GELU, vsize = cfg_vocab_size cfg, inner_dim = inner,
               top_k_tokens_per_head = replicate n 1\<rparr>, o2))))))"

subsection \<open>MLPSpeculatorModel.forward\<close>

definition rescale_input :: "MLPSpeculatorModel \<Rightarrow> real tensor \<Rightarrow> error + real tensor" where
  \<comment> \<open>lines 146-149\<close>
  "rescale_input m hidden_states =
     (if scale_input m
      then rbind (attr ''ln0'' (ln0 m)) (\<lambda>l.
           rbind (MLPSpeculatorLayerNorm_forward l hidden_states) (\<lambda>x.
           Inr (map_tensor (\<lambda>v. v / SQRT2) x)))
      else Inr hidden_states)"

definition mix_state :: "MLPSpeculatorModel \<Rightarrow> nat \<Rightarrow> real tensor \<Rightarrow> int tensor \<Rightarrow> error + real tensor" where
  \<comment> \<open>lines 161-164: the state that head \<open>i\<close> projects to the vocabulary\<close>
  "mix_state m i state ind =
     rbind (nth_res (emb m) i) (\<lambda>e.
     rbind (embedding_forward e ind) (\<lambda>z0.
     let z = map_tensor (\<lambda>v. v * (emb_weight m * sqrt (real (inner_dim m) / 2))) z0 in
     rbind (nth_res (proj m) i) (\<lambda>p.
     rbind (linear_forward p state) (\<lambda>ps.
     rbind (binop (+) (map_tensor (\<lambda>v. v * state_weight m) ps) z) (\<lambda>mixed.
     rbind (nth_res (ln m) i) (\<lambda>l.
     rbind (MLPSpeculatorLayerNorm_forward l mixed) (\<lambda>normed.
     Inr (map_tensor (activation m) normed))))))))"

definition predict ::
  "selection \<Rightarrow> MLPSpeculatorModel \<Rightarrow> nat \<Rightarrow> real tensor \<Rightarrow> error + (real tensor \<times> int tensor)" where
  \<comment> \<open>lines 165-166: the log-probabilities of head \<open>i\<close> and the indices of its top-k\<close>
  "predict sel m i state =
     rbind (nth_res (head m) i) (\<lambda>h.
     rbind (linear_forward h state) (\<lambda>logits.
     let probs = log_softmax logits in
     rbind (nth_res (top_k_tokens_per_head m) i) (\<lambda>k.
     rbind (topk sel k probs) (\<lambda>preds.
     Inr (probs, preds)))))"

definition branch ::
  "MLPSpeculatorModel \<Rightarrow> nat \<Rightarrow> nat \<Rightarrow> real tensor \<Rightarrow> int tensor \<Rightarrow> error + (real tensor \<times> int tensor)" where
  \<comment> \<open>lines 174-178: one copy of the state per kept candidate, and the kept ids\<close>
  "branch m b i state preds =
     rbind (unsqueeze 2 state) (\<lambda>s1.
     rbind (nth_res (top_k_tokens_per_head m) i) (\<lambda>k.
     rbind (expand_dim2 k s1) (\<lambda>s2.
     rbind (size_dim s2 3) (\<lambda>d.
     rbind (reshape_infer [b, d] s2) (\<lambda>s3.
     rbind (reshape_infer [b] preds) (\<lambda>ind.
     Inr (s3, ind)))))))"

definition head_step ::
  "selection \<Rightarrow> MLPSpeculatorModel \<Rightarrow> nat \<Rightarrow> nat \<Rightarrow> real tensor \<times> int tensor \<times> real tensor \<Rightarrow>
   error + (real tensor \<times> int tensor \<times> real tensor)" where
  \<comment> \<open>the body of the loop (lines 160-178) on the loop variables \<open>state\<close>, \<open>ind\<close>, \<open>all_probs\<close>\<close>
  "head_step sel m b i s =
     (case s of (state, ind, all_probs) \<Rightarrow>
        rbind (mix_state m i state ind) (\<lambda>state1.
        rbind (predict sel m i state1) (\<lambda>(probs, preds).
        rbind (setitem_col all_probs i (map_tensor exp probs)) (\<lambda>all_probs1.
        rbind (branch m b i state1 preds) (\<lambda>(state2, ind2).
        Inr (state2, ind2, all_probs1))))))"

fun run_heads ::
  "selection \<Rightarrow> MLPSpeculatorModel \<Rightarrow> nat \<Rightarrow> nat list \<Rightarrow> real tensor \<times> int tensor \<times> real tensor \<Rightarrow>
   error + (real tensor \<times> int tensor \<times> real tensor)" where
  \<comment> \<open>\<open>for i in range(self.n_predict)\<close>\<close>
  "run_heads sel m b [] s = Inr s"
| "run_heads sel m b (i # is) s = rbind (head_step sel m b i s) (run_heads sel m b is)"

definition topk_message :: "nat \<Rightarrow> nat \<Rightarrow> string" where
  "topk_message n k =
     ''You must provide a topk number for each head ('' @ str_nat n @ '' heads, ''
       @ str_nat k @ '' provided)''"

definition MLPSpeculatorModel_forward ::
  "selection \<Rightarrow> MLPSpeculatorModel \<Rightarrow> real \<Rightarrow> real tensor \<Rightarrow> int tensor \<Rightarrow> error + real tensor" where
  \<comment> \<open>lines 137-181; \<open>u\<close> is what \<open>torch.empty\<close> leaves in the fresh output\<close>
  "MLPSpeculatorModel_forward sel m u hidden_states input_ids =
     rbind (rescale_input m hidden_states) (\<lambda>state.
     rbind (size_dim state 0) (\<lambda>b.
     rbind (unsqueeze 0 input_ids) (\<lambda>ind.
     let all_probs = empty_tensor u [b, n_predict m, vsize m] in
     if length (top_k_tokens_per_head m) \<noteq> n_predict m
     then Inl (AssertionError (topk_message (n_predict m) (length (top_k_tokens_per_head m))))
     else rbind (run_heads sel m b [0..<n_predict m] (state, ind, all_probs)) (\<lambda>(state', ind', all_probs').
          Inr all_probs'))))"

subsection \<open>MLPSpeculatorHead\<close>

record MLPSpeculatorHead =
  lm_head :: linear
  mlp_speculator :: MLPSpeculatorModel

definition MLPSpeculatorHead_forward ::
  "selection \<Rightarrow> MLPSpeculatorHead \<Rightarrow> real \<Rightarrow> real tensor \<Rightarrow> error + (real tensor \<times> real tensor option)" where
  \<comment> \<open>lines 190-200\<close>
  "MLPSpeculatorHead_forward sel self u input =
     rbind (linear_forward (lm_head self) input) (\<lambda>logits.
     rbind (size_dim input 0) (\<lambda>B.
     if B > 128 then Inr (logits, None)
     else rbind (argmax logits) (\<lambda>input_ids.
          rbind (MLPSpeculatorModel_forward sel (mlp_speculator self) u input input_ids) (\<lambda>speculative_logits.
          Inr (logits, Some speculative_logits)))))"

fun route_keys :: "string \<Rightarrow> string list \<Rightarrow> (string \<rightharpoonup> string) \<Rightarrow> error + (string \<rightharpoonup> string)" where
  \<comment> \<open>lines 213-218: the keys of one file\<close>
  "route_keys filename [] r = Inr r"
| "route_keys filename (k # ks) r =
     (case r k of
        None \<Rightarrow> route_keys filename ks (r(k \<mapsto> filename))
      | Some g \<Rightarrow>
          if g \<noteq> filename
          then Inl (RuntimeError (''Key '' @ k @ '' was found in multiple files: '' @ filename
                                   @ '' and '' @ g))
          else route_keys filename ks (r(k \<mapsto> filename)))"

fun route_files ::
  "(string \<Rightarrow> string list) \<Rightarrow> string list \<Rightarrow> (string \<rightharpoonup> string) \<Rightarrow> error + (string \<rightharpoonup> string)" where
  \<comment> \<open>lines 209-218: the files in turn; \<open>keys f\<close> is \<open>safe_open(f).keys()\<close>\<close>
  "route_files keys [] r = Inr r"
| "route_files keys (f # fs) r = rbind (route_keys f (keys f) r) (route_files keys fs)"

definition MLPSpeculatorHead_load ::
  "(string \<Rightarrow> string \<Rightarrow> string) \<Rightarrow> (string \<Rightarrow> string list) \<Rightarrow> config \<Rightarrow> nat \<Rightarrow> string \<Rightarrow> weights \<Rightarrow> nat \<Rightarrow>
   error + (MLPSpeculatorHead \<times> weights \<times> nat)" where
  \<comment> \<open>lines 202-222. \<open>join p f\<close> is \<open>str(Path(p) / f)\<close>; the routing table of \<open>weights\<close> is
      updated in place, so the updated \<open>weights\<close> are returned with the head.\<close>
  "MLPSpeculatorHead_load join keys cfg n prefix w oid =
     rbind (route_files keys (map (join (path (cfg_speculator cfg))) (model_paths (cfg_speculator cfg)))
              (routing w)) (\<lambda>r.
     let w' = w\<lparr>routing := r\<rparr> in
     rbind (MLPSpeculatorModel_init cfg n ''speculator'' w' oid) (\<lambda>(mlp, o1).
     rbind (TensorParallelHead_load prefix w' o1) (\<lambda>lm.
     Inr (\<lparr>lm_head = lm, mlp_speculator = mlp\<rparr>, w', Suc o1))))"

subsection \<open>What the loader's routing loop is expected to do\<close>

definition speculator_filenames :: "(string \<Rightarrow> string \<Rightarrow> string) \<Rightarrow> config \<Rightarrow> string list" where
  "speculator_filenames join cfg =
     map (join (path (cfg_speculator cfg))) (model_paths (cfg_speculator cfg))"

definition conflict_free :: "(string \<Rightarrow> string list) \<Rightarrow> string list \<Rightarrow> (string \<rightharpoonup> string) \<Rightarrow> bool" where
  \<comment> \<open>every key of every file is routed nowhere else yet and is in no other file\<close>
  "conflict_free keys fs r \<longleftrightarrow>
     (\<forall>f \<in> set fs. \<forall>k \<in> set (keys f).
        (r k = None \<or> r k = Some f) \<and> (\<forall>g \<in> set fs. k \<in> set (keys g) \<longrightarrow> g = f))"

definition routed :: "(string \<Rightarrow> string list) \<Rightarrow> string list \<Rightarrow> (string \<rightharpoonup> string) \<Rightarrow> (string \<rightharpoonup> string)" where
  \<comment> \<open>the routing table after the loop: a key of a file goes to that file, any other key stays\<close>
  "routed keys fs r = (\<lambda>k. case find (\<lambda>f. k \<in> set (keys f)) fs of None \<Rightarrow> r k | Some f \<Rightarrow> Some f)"

subsection \<open>What the normaliser and the top-k selection are expected to compute\<close>

definition wf_tensor :: "'a tensor \<Rightarrow> bool" where
  \<comment> \<open>a tensor holds as many entries as its shape says\<close>
  "wf_tensor t \<longleftrightarrow> length (data t) = prod_list (shape t)"

definition rms_row :: "real \<Rightarrow> real list \<Rightarrow> real list" where
  \<comment> \<open>\<open>y = x * rsqrt(mean(x\<^sup>2) + epsilon)\<close> on one vector\<close>
  "rms_row e r = map (\<lambda>v. v * (1 / sqrt (sum_list (map (\<lambda>a. a\<^sup>2) r) / real (length r) + e))) r"

definition affine_row :: "real list \<Rightarrow> real list \<Rightarrow> real list \<Rightarrow> real list" where
  \<comment> \<open>\<open>y * scale + shift\<close>, elementwise on one vector\<close>
  "affine_row w b r = map (\<lambda>(wj, vj, bj). wj * vj + bj) (zip w (zip r b))"

definition normalizer_row :: "layernorm \<Rightarrow> real list \<Rightarrow> real list" where
  "normalizer_row l r =
     (if elementwise_scale_and_shift l
      then affine_row (data (the (ln_weight l))) (data (the (ln_bias l))) (rms_row (eps l) r)
      else rms_row (eps l) r)"

definition is_topk :: "nat \<Rightarrow> real list \<Rightarrow> nat list \<Rightarrow> bool" where
  \<comment> \<open>\<open>ps\<close> lists \<open>k\<close> different positions of \<open>r\<close>, by descending value, and no position left out
      holds a larger value than a listed one\<close>
  "is_topk k r ps \<longleftrightarrow>
     length ps = k \<and> distinct ps \<and> (\<forall>p \<in> set ps. p < length r)
     \<and> sorted_wrt (\<lambda>p q. r ! q \<le> r ! p) ps
     \<and> (\<forall>j < length r. j \<notin> set ps \<longrightarrow> (\<forall>p \<in> set ps. r ! j \<le> r ! p))"

definition topk_contract :: "selection \<Rightarrow> bool" where
  \<comment> \<open>what \<open>torch.topk\<close> promises: one list per vector, and each list is a top-k of its vector\<close>
  "topk_contract sel \<longleftrightarrow>
     (\<forall>k rs. (\<forall>r \<in> set rs. k \<le> length r) \<longrightarrow>
        length (sel k rs) = length rs \<and> (\<forall>j < length rs. is_topk k (rs ! j) (sel k rs ! j)))"

definition stable_topk_row :: "nat \<Rightarrow> real list \<Rightarrow> nat list" where
  \<comment> \<open>one selection that keeps the promise: equal entries in index order\<close>
  "stable_topk_row k r = take k (sort_key (\<lambda>j. - (r ! j)) [0..<length r])"

definition stable_topk :: selection where
  "stable_topk k rs = map (stable_topk_row k) rs"

subsection \<open>Small concrete inputs\<close>

definition ex_join :: "string \<Rightarrow> string \<Rightarrow> string" where
  "ex_join p f = p @ ''/'' @ f"

definition ex_keys_shared :: "string \<Rightarrow> string list" where
  "ex_keys_shared f = (if f = ''spec/a'' \<or> f = ''spec/b'' then [''speculator.emb.0.weight''] else [])"

definition ex_keys_apart :: "string \<Rightarrow> string list" where
  "ex_keys_apart f =
     (if f = ''spec/a'' then [''speculator.emb.0.weight'']
      else if f = ''spec/b'' then [''speculator.head.0.weight'']
      else [])"

definition ex_config :: "bool \<Rightarrow> bool \<Rightarrow> config" where
  "ex_config tie scale =
     \<lparr>cfg_hidden_size = 1, cfg_vocab_size = 2,
      cfg_speculator_config =
        \<lparr>cfg_tie_weights = Some tie, cfg_scale_input = Some scale, cfg_inner_dim = Some 1\<rparr>,
      cfg_speculator = \<lparr>path = ''spec'', model_paths = [''a'', ''b'']\<rparr>\<rparr>"

definition ex_tensors :: "(string \<times> real tensor) list" where
  "ex_tensors =
     [(''speculator.emb.0.weight'', \<lparr>shape = [2, 1], data = [0, 0]\<rparr>),
      (''speculator.emb.1.weight'', \<lparr>shape = [2, 1], data = [0, 0]\<rparr>),
      (''speculator.proj.0.weight'', \<lparr>shape = [1, 1], data = [1]\<rparr>),
      (''speculator.proj.1.weight'', \<lparr>shape = [1, 1], data = [1]\<rparr>),
      (''speculator.head.0.weight'', \<lparr>shape = [2, 1], data = [0, 0]\<rparr>),
      (''speculator.head.1.weight'', \<lparr>shape = [2, 1], data = [0, 0]\<rparr>),
      (''speculator.ln.0.weight'', \<lparr>shape = [1], data = [1]\<rparr>),
      (''speculator.ln.0.bias'', \<lparr>shape = [1], data = [0]\<rparr>),
      (''speculator.ln.1.weight'', \<lparr>shape = [1], data = [1]\<rparr>),
      (''speculator.ln.1.bias'', \<lparr>shape = [1], data = [0]\<rparr>),
      (''lm_head.weight'', \<lparr>shape = [2, 1], data = [1, 0]\<rparr>)]"

definition ex_weights :: weights where
  "ex_weights =
     \<lparr>routing = map_of (map (\<lambda>(name, t). (name, ''spec/a'')) ex_tensors),
      files = (\<lambda>f. if f = ''spec/a'' then map_of ex_tensors else Map.empty)\<rparr>"

definition ex_weights_unrouted :: weights where
  "ex_weights_unrouted = ex_weights\<lparr>routing := Map.empty\<rparr>"

definition ex_ln :: layernorm where
  "ex_ln = \<lparr>ln_oid = 4, elementwise_scale_and_shift = True,
            ln_weight = Some \<lparr>shape = [1], data = [1]\<rparr>,
            ln_bias = Some \<lparr>shape = [1], data = [0]\<rparr>, eps = 1 / 10 ^ 6\<rparr>"

definition ex_model :: "nat list \<Rightarrow> MLPSpeculatorModel" where
  \<comment> \<open>what the constructor builds from \<open>ex_config True False\<close> for two heads, with the top-k
      list set to \<open>ks\<close>\<close>
  "ex_model ks =
     \<lparr>n_predict = 2, hidden_size = 1, tie_weights = True, scale_input = False,
      emb = replicate 2 \<lparr>emb_oid = 0, emb_table = \<lparr>shape = [2, 1], data = [0, 0]\<rparr>\<rparr>,
      proj = [\<lparr>lin_oid = 1, lin_weight = \<lparr>shape = [1, 1], data = [1]\<rparr>\<rparr>,
              \<lparr>lin_oid = 2, lin_weight = \<lparr>shape = [1, 1], data = [1]\<rparr>\<rparr>],
      head = replicate 2 \<lparr>lin_oid = 3, lin_weight = \<lparr>shape = [2, 1], data = [0, 0]\<rparr>\<rparr>,
      ln = replicate 2 ex_ln,
      ln0 = None,
      state_weight = (1 / 2) powr ((1 / 2) / 2),
      emb_weight = emb_weight_of ((1 / 2) powr ((1 / 2) / 2)),
      activation = GELU, vsize = 2, inner_dim = 1,
      top_k_tokens_per_head = ks\<rparr>"

definition ex_hidden :: "real tensor" where
  "ex_hidden = \<lparr>shape = [1, 1], data = [0]\<rparr>"

definition ex_ids :: "int tensor" where
  "ex_ids = \<lparr>shape = [1], data = [0]\<rparr>"

definition ex_wrapper :: MLPSpeculatorHead where
  "ex_wrapper = \<lparr>lm_head = \<lparr>lin_oid = 5, lin_weight = \<lparr>shape = [2, 1], data = [1, 0]\<rparr>\<rparr>,
                 mlp_speculator = ex_model [1, 1]\<rparr>"

definition ex_wrapper_no_vocab :: MLPSpeculatorHead where
  "ex_wrapper_no_vocab = \<lparr>lm_head = \<lparr>lin_oid = 5, lin_weight = \<lparr>shape = [0, 1], data = []\<rparr>\<rparr>,
                          mlp_speculator = ex_model [1, 1]\<rparr>"

definition ex_big :: "real tensor" where
  \<comment> \<open>129 rows\<close>
  "ex_big = \<lparr>shape = [129, 1], data = replicate 129 0\<rparr>"

definition ex_scalar :: "real tensor" where
  "ex_scalar = \<lparr>shape = [], data = [0]\<rparr>"

section \<open>Properties\<close>

subsection \<open>The routing loop of the loader\<close>

lemma route_keys_ok:
  "\<forall>k \<in> set ks. r k = None \<or> r k = Some f \<Longrightarrow>
   route_keys f ks r = Inr (\<lambda>k. if k \<in> set ks then Some f else r k)"
proof (induction ks arbitrary: r)
  case Nil
  then show ?case by simp
next
  case (Cons k ks)
  have "\<forall>k' \<in> set ks. (r(k \<mapsto> f)) k' = None \<or> (r(k \<mapsto> f)) k' = Some f"
    using Cons.prems by auto
  from Cons.IH [OF this] Cons.prems show ?case
    by (auto simp: fun_upd_def split: option.splits intro!: ext)
qed

lemma route_keys_conflict:
  "k \<in> set ks \<Longrightarrow> r k = Some g \<Longrightarrow> g \<noteq> f \<Longrightarrow> \<exists>msg. route_keys f ks r = Inl (RuntimeError msg)"
proof (induction ks arbitrary: r)
  case Nil
  then show ?case by simp
next
  case (Cons k' ks)
  show ?case
  proof (cases "k' = k")
    case True
    then show ?thesis using Cons.prems by simp
  next
    case False
    then have "k \<in> set ks" "(r(k' \<mapsto> f)) k = Some g" using Cons.prems by auto
    from Cons.IH [of "r(k' \<mapsto> f)", OF this(1) this(2) Cons.prems(3)] show ?thesis
      by (simp add: fun_upd_def split: option.splits)
  qed
qed

lemma route_files_ok:
  "conflict_free keys fs r \<Longrightarrow> route_files keys fs r = Inr (routed keys fs r)"
proof (induction fs arbitrary: r)
  case Nil
  then show ?case by (simp add: routed_def)
next
  case (Cons f fs)
  let ?r' = "\<lambda>k. if k \<in> set (keys f) then Some f else r k"
  have 1: "route_keys f (keys f) r = Inr ?r'"
    by (rule route_keys_ok) (use Cons.prems in \<open>auto simp: conflict_free_def\<close>)
  have 2: "conflict_free keys fs ?r'"
    using Cons.prems unfolding conflict_free_def by (auto split: if_splits)
  have 3: "routed keys fs ?r' = routed keys (f # fs) r"
  proof
    fix k
    show "routed keys fs ?r' k = routed keys (f # fs) r k"
    proof (cases "k \<in> set (keys f)")
      case True
      have "find (\<lambda>g. k \<in> set (keys g)) fs = None \<or> find (\<lambda>g. k \<in> set (keys g)) fs = Some f"
      proof (cases "find (\<lambda>g. k \<in> set (keys g)) fs")
        case None then show ?thesis by simp
      next
        case (Some g)
        then have "g \<in> set fs" "k \<in> set (keys g)"
          by (auto simp: find_Some_iff)
        then have "g = f" using Cons.prems True unfolding conflict_free_def by auto
        then show ?thesis using Some by simp
      qed
      then show ?thesis using True by (auto simp: routed_def)
    next
      case False
      then show ?thesis by (simp add: routed_def)
    qed
  qed
  show ?case using 1 Cons.IH [OF 2] 3 by (simp add: rbind_def)
qed

lemma route_files_conflict:
  "\<not> conflict_free keys fs r \<Longrightarrow> \<exists>msg. route_files keys fs r = Inl (RuntimeError msg)"
proof (induction fs arbitrary: r)
  case Nil
  then show ?case by (simp add: conflict_free_def)
next
  case (Cons f fs)
  show ?case
  proof (cases "\<forall>k \<in> set (keys f). r k = None \<or> r k = Some f")
    case False
    then obtain k g where "k \<in> set (keys f)" "r k = Some g" "g \<noteq> f" by auto
    from route_keys_conflict [of k "keys f" r g f, OF this] show ?thesis by (auto simp: rbind_def)
  next
    case True
    let ?r' = "\<lambda>k. if k \<in> set (keys f) then Some f else r k"
    have 1: "route_keys f (keys f) r = Inr ?r'" by (rule route_keys_ok [OF True])
    have "\<not> conflict_free keys fs ?r'"
    proof
      assume cf: "conflict_free keys fs ?r'"
      have key: "a = f" if "a \<in> set fs" "k \<in> set (keys a)" "k \<in> set (keys f)" for a k
      proof -
        from cf that have "?r' k = None \<or> ?r' k = Some a" unfolding conflict_free_def by blast
        with that(3) show "a = f" by simp
      qed
      have A: "r k = None \<or> r k = Some g" if g: "g \<in> set (f # fs)" and k: "k \<in> set (keys g)" for g k
      proof (cases "g = f")
        case True
        then show ?thesis using \<open>\<forall>k \<in> set (keys f). r k = None \<or> r k = Some f\<close> k by auto
      next
        case False
        then have "g \<in> set fs" using g by simp
        with cf k have "?r' k = None \<or> ?r' k = Some g" unfolding conflict_free_def by blast
        then show ?thesis using False by (auto split: if_splits)
      qed
      have B: "h = g" if g: "g \<in> set (f # fs)" and k: "k \<in> set (keys g)"
        and h: "h \<in> set (f # fs)" and kh: "k \<in> set (keys h)" for g h k
      proof (cases "h \<in> set fs \<and> g \<in> set fs")
        case True
        then show ?thesis using cf k kh unfolding conflict_free_def by blast
      next
        case False
        then consider "h = f" "g = f" | "h = f" "g \<in> set fs" | "g = f" "h \<in> set fs"
          using g h by auto
        then show ?thesis
        proof cases
          case 1 then show ?thesis by simp
        next
          case 2 then show ?thesis using key [of g k] k kh by auto
        next
          case 3 then show ?thesis using key [of h k] k kh by auto
        qed
      qed
      have "conflict_free keys (f # fs) r"
        unfolding conflict_free_def using A B by blast
      with Cons.prems show False by simp
    qed
    from Cons.IH [OF this] 1 show ?thesis by (simp add: rbind_def)
  qed
qed


lemma not_conflict_free_iff:
  "\<not> conflict_free keys fs r \<longleftrightarrow>
     (\<exists>f \<in> set fs. \<exists>k \<in> set (keys f).
        (\<exists>g. r k = Some g \<and> g \<noteq> f) \<or> (\<exists>g \<in> set fs. k \<in> set (keys g) \<and> g \<noteq> f))"
proof -
  have h: "(\<not> (r k = None \<or> r k = Some f)) = (\<exists>g. r k = Some g \<and> g \<noteq> f)" for k f
    by (cases "r k") auto
  have "(\<not> conflict_free keys fs r) =
      (\<exists>f \<in> set fs. \<exists>k \<in> set (keys f).
         \<not> (r k = None \<or> r k = Some f) \<or> (\<exists>g \<in> set fs. k \<in> set (keys g) \<and> g \<noteq> f))"
    unfolding conflict_free_def by blast
  then show ?thesis by (simp only: h)
qed

lemma routed_claimed:
  assumes "conflict_free keys fs r" "f \<in> set fs" "k \<in> set (keys f)"
  shows "routed keys fs r k = Some f"
proof (cases "find (\<lambda>g. k \<in> set (keys g)) fs")
  case None
  then show ?thesis using assms by (auto simp: find_None_iff)
next
  case (Some g)
  then have "g \<in> set fs" "k \<in> set (keys g)" by (auto simp: find_Some_iff)
  then have "g = f" using assms unfolding conflict_free_def by blast
  then show ?thesis using Some by (simp add: routed_def)
qed

lemma routed_unclaimed:
  assumes "\<forall>f \<in> set fs. k \<notin> set (keys f)"
  shows "routed keys fs r k = r k"
proof -
  have "find (\<lambda>g. k \<in> set (keys g)) fs = None" using assms by (simp add: find_None_iff)
  then show ?thesis by (simp add: routed_def)
qed

text \<open>
  Claim C9. While the speculator is loaded, a parameter key found in two different source
  files (or already routed to another file) makes the load fail with the routing error,
  raised by the routing loop, so before the model is built; when every key is claimed by
  at most one file (a file claiming again the key it already owns is no conflict), the
  loop ends with every key routed to its file, all other keys untouched, and the load goes
  on to build the model on the updated routing table.
\<close>

theorem C9_routing_conflict:
  "((\<exists>f \<in> set (speculator_filenames join cfg). \<exists>k \<in> set (keys f).
        (\<exists>g. routing w k = Some g \<and> g \<noteq> f)
        \<or> (\<exists>g \<in> set (speculator_filenames join cfg). k \<in> set (keys g) \<and> g \<noteq> f))
     \<longrightarrow> (\<exists>msg. route_files keys (speculator_filenames join cfg) (routing w) = Inl (RuntimeError msg)
              \<and> MLPSpeculatorHead_load join keys cfg n prefix w oid = Inl (RuntimeError msg)))
   \<and> (conflict_free keys (speculator_filenames join cfg) (routing w)
     \<longrightarrow> (\<exists>r. route_files keys (speculator_filenames join cfg) (routing w) = Inr r
              \<and> (\<forall>f \<in> set (speculator_filenames join cfg). \<forall>k \<in> set (keys f). r k = Some f)
              \<and> (\<forall>k. (\<forall>f \<in> set (speculator_filenames join cfg). k \<notin> set (keys f))
                       \<longrightarrow> r k = routing w k)
              \<and> MLPSpeculatorHead_load join keys cfg n prefix w oid =
                  rbind (MLPSpeculatorModel_init cfg n ''speculator'' (w\<lparr>routing := r\<rparr>) oid)
                    (\<lambda>(mlp, o1).
                       rbind (TensorParallelHead_load prefix (w\<lparr>routing := r\<rparr>) o1)
                         (\<lambda>lm. Inr (\<lparr>lm_head = lm, mlp_speculator = mlp\<rparr>, w\<lparr>routing := r\<rparr>, Suc o1)))))"
proof (intro conjI impI)
  let ?fs = "speculator_filenames join cfg"
  assume "\<exists>f \<in> set ?fs. \<exists>k \<in> set (keys f).
        (\<exists>g. routing w k = Some g \<and> g \<noteq> f) \<or> (\<exists>g \<in> set ?fs. k \<in> set (keys g) \<and> g \<noteq> f)"
  then have "\<not> conflict_free keys ?fs (routing w)"
    by (simp only: not_conflict_free_iff)
  from route_files_conflict [OF this] obtain msg
    where m: "route_files keys ?fs (routing w) = Inl (RuntimeError msg)" by blast
  then have "MLPSpeculatorHead_load join keys cfg n prefix w oid = Inl (RuntimeError msg)"
    by (simp add: MLPSpeculatorHead_load_def speculator_filenames_def rbind_def)
  with m show "\<exists>msg. route_files keys ?fs (routing w) = Inl (RuntimeError msg)
      \<and> MLPSpeculatorHead_load join keys cfg n prefix w oid = Inl (RuntimeError msg)"
    by blast
next
  let ?fs = "speculator_filenames join cfg"
  let ?r = "routed keys ?fs (routing w)"
  assume cf: "conflict_free keys ?fs (routing w)"
  have 1: "route_files keys ?fs (routing w) = Inr ?r" by (rule route_files_ok [OF cf])
  have 2: "\<forall>f \<in> set ?fs. \<forall>k \<in> set (keys f). ?r k = Some f"
    using routed_claimed [OF cf] by blast
  have 3: "\<forall>k. (\<forall>f \<in> set ?fs. k \<notin> set (keys f)) \<longrightarrow> ?r k = routing w k"
    using routed_unclaimed by blast
  have 4: "MLPSpeculatorHead_load join keys cfg n prefix w oid =
      rbind (MLPSpeculatorModel_init cfg n ''speculator'' (w\<lparr>routing := ?r\<rparr>) oid)
        (\<lambda>(mlp, o1).
           rbind (TensorParallelHead_load prefix (w\<lparr>routing := ?r\<rparr>) o1)
             (\<lambda>lm. Inr (\<lparr>lm_head = lm, mlp_speculator = mlp\<rparr>, w\<lparr>routing := ?r\<rparr>, Suc o1)))"
    using 1 by (simp add: MLPSpeculatorHead_load_def speculator_filenames_def rbind_def Let_def)
  show "\<exists>r. route_files keys ?fs (routing w) = Inr r
              \<and> (\<forall>f \<in> set ?fs. \<forall>k \<in> set (keys f). r k = Some f)
              \<and> (\<forall>k. (\<forall>f \<in> set ?fs. k \<notin> set (keys f)) \<longrightarrow> r k = routing w k)
              \<and> MLPSpeculatorHead_load join keys cfg n prefix w oid =
                  rbind (MLPSpeculatorModel_init cfg n ''speculator'' (w\<lparr>routing := r\<rparr>) oid)
                    (\<lambda>(mlp, o1).
                       rbind (TensorParallelHead_load prefix (w\<lparr>routing := r\<rparr>) o1)
                         (\<lambda>lm. Inr (\<lparr>lm_head = lm, mlp_speculator = mlp\<rparr>, w\<lparr>routing := r\<rparr>, Suc o1)))"
    using 1 2 3 4 by blast
qed

lemma ex_filenames: "speculator_filenames ex_join (ex_config tie scale) = [''spec/a'', ''spec/b'']"
  by (simp add: speculator_filenames_def ex_join_def ex_config_def)

theorem C9_routing_conflict_witness:
  "(\<exists>f \<in> set (speculator_filenames ex_join (ex_config True False)). \<exists>k \<in> set (ex_keys_shared f).
        (\<exists>g. routing ex_weights_unrouted k = Some g \<and> g \<noteq> f)
        \<or> (\<exists>g \<in> set (speculator_filenames ex_join (ex_config True False)).
              k \<in> set (ex_keys_shared g) \<and> g \<noteq> f))
   \<and> (\<exists>msg. MLPSpeculatorHead_load ex_join ex_keys_shared (ex_config True False) 2 ''lm_head''
               ex_weights_unrouted 0 = Inl (RuntimeError msg))
   \<and> conflict_free ex_keys_apart (speculator_filenames ex_join (ex_config True False))
        (routing ex_weights_unrouted)
   \<and> (\<exists>r. route_files ex_keys_apart (speculator_filenames ex_join (ex_config True False))
              (routing ex_weights_unrouted) = Inr r
          \<and> r ''speculator.emb.0.weight'' = Some ''spec/a''
          \<and> r ''speculator.head.0.weight'' = Some ''spec/b'')"
proof -
  let ?fs = "speculator_filenames ex_join (ex_config True False)"
  have a: "\<exists>f \<in> set ?fs. \<exists>k \<in> set (ex_keys_shared f).
        (\<exists>g. routing ex_weights_unrouted k = Some g \<and> g \<noteq> f)
        \<or> (\<exists>g \<in> set ?fs. k \<in> set (ex_keys_shared g) \<and> g \<noteq> f)"
    by (simp add: ex_filenames ex_keys_shared_def)
  have b: "conflict_free ex_keys_apart ?fs (routing ex_weights_unrouted)"
    by (simp add: ex_filenames conflict_free_def ex_keys_apart_def ex_weights_unrouted_def)
  have c: "\<exists>msg. MLPSpeculatorHead_load ex_join ex_keys_shared (ex_config True False) 2 ''lm_head''
               ex_weights_unrouted 0 = Inl (RuntimeError msg)"
    using C9_routing_conflict [of ex_join "ex_config True False" ex_keys_shared ex_weights_unrouted
      2 "''lm_head''" 0, THEN conjunct1, rule_format, OF a] by blast
  obtain r where r: "route_files ex_keys_apart ?fs (routing ex_weights_unrouted) = Inr r"
    and claimed: "\<forall>f \<in> set ?fs. \<forall>k \<in> set (ex_keys_apart f). r k = Some f"
    using C9_routing_conflict [of ex_join "ex_config True False" ex_keys_apart ex_weights_unrouted
      2 "''lm_head''" 0, THEN conjunct2, rule_format, OF b] by blast
  have fa: "''spec/a'' \<in> set ?fs" and fb: "''spec/b'' \<in> set ?fs"
    by (simp_all add: ex_filenames)
  have ka: "''speculator.emb.0.weight'' \<in> set (ex_keys_apart ''spec/a'')"
    and kb: "''speculator.head.0.weight'' \<in> set (ex_keys_apart ''spec/b'')"
    by (simp_all add: ex_keys_apart_def)
  have "r ''speculator.emb.0.weight'' = Some ''spec/a''"
    using claimed fa ka by blast
  moreover have "r ''speculator.head.0.weight'' = Some ''spec/b''"
    using claimed fb kb by blast
  ultimately show ?thesis using a b c r by blast
qed

subsection \<open>The constructor\<close>

lemma rbind_Inr_iff: "rbind r f = Inr y \<longleftrightarrow> (\<exists>x. r = Inr x \<and> f x = Inr y)"
  by (cases r) (simp_all add: rbind_def)

lemma rbind_Inr [simp]: "rbind (Inr x) f = f x"
  by (simp add: rbind_def)

lemma rbind_Inl [simp]: "rbind (Inl e) f = Inl e"
  by (simp add: rbind_def)

lemma TensorParallelEmbedding_oid: "TensorParallelEmbedding p w oid = Inr e \<Longrightarrow> emb_oid e = oid"
  by (auto simp: TensorParallelEmbedding_def rbind_Inr_iff)

lemma FastLinear_load_oid: "FastLinear_load p w oid = Inr l \<Longrightarrow> lin_oid l = oid"
  by (auto simp: FastLinear_load_def rbind_Inr_iff)

lemma MLPSpeculatorLayerNorm_init_oid:
  "MLPSpeculatorLayerNorm_init p c w e a oid = Inr l \<Longrightarrow> ln_oid l = oid"
  by (auto simp: MLPSpeculatorLayerNorm_init_def rbind_Inr_iff split: option.splits if_splits)

lemma build_list_oids:
  assumes mk: "\<And>i oid x. mk i oid = Inr x \<Longrightarrow> f x = oid"
    and "build_list mk is oid = Inr (xs, oid')"
  shows "map f xs = [oid..<oid + length is] \<and> oid' = oid + length is"
  using assms(2)
proof (induction "is" arbitrary: oid xs)
  case Nil
  then show ?case by simp
next
  case (Cons i "is")
  from Cons.prems obtain x ys where x: "mk i oid = Inr x"
    and ys: "build_list mk is (Suc oid) = Inr (ys, oid')" and xs: "xs = x # ys"
    by (auto simp: rbind_Inr_iff)
  have u: "[oid..<oid + length (i # is)] = oid # [Suc oid..<Suc oid + length is]"
    by (simp add: upt_conv_Cons del: upt_Suc)
  from Cons.IH [OF ys] mk [OF x] xs show ?case
    unfolding u by simp
qed

lemma scale_input_TypeError:
  "MLPSpeculatorLayerNorm_init (Some p) None None e a oid
     = Inl (TypeError ''__init__() missing required positional arguments'')"
  by (simp add: MLPSpeculatorLayerNorm_init_def)

lemma init_scale_input_fails:
  assumes "cfg_scale_input (cfg_speculator_config cfg) = Some True"
  shows "\<exists>e. MLPSpeculatorModel_init cfg n prefix w oid = Inl e"
proof (cases "build_layers cfg n prefix w (dict_get (cfg_tie_weights (cfg_speculator_config cfg)) False) oid")
  case (Inl e)
  then show ?thesis by (simp add: MLPSpeculatorModel_init_def Let_def)
next
  case (Inr x)
  then show ?thesis using assms
    by (cases x) (auto simp: MLPSpeculatorModel_init_def Let_def dict_get_def scale_input_TypeError)
qed

lemma ex_get_tensor:
  "get_tensor ex_weights ''speculator.emb.0.weight'' = Inr \<lparr>shape = [2, 1], data = [0, 0]\<rparr>"
  "get_tensor ex_weights ''speculator.emb.1.weight'' = Inr \<lparr>shape = [2, 1], data = [0, 0]\<rparr>"
  "get_tensor ex_weights ''speculator.proj.0.weight'' = Inr \<lparr>shape = [1, 1], data = [1]\<rparr>"
  "get_tensor ex_weights ''speculator.proj.1.weight'' = Inr \<lparr>shape = [1, 1], data = [1]\<rparr>"
  "get_tensor ex_weights ''speculator.head.0.weight'' = Inr \<lparr>shape = [2, 1], data = [0, 0]\<rparr>"
  "get_tensor ex_weights ''speculator.head.1.weight'' = Inr \<lparr>shape = [2, 1], data = [0, 0]\<rparr>"
  "get_tensor ex_weights ''speculator.ln.0.weight'' = Inr \<lparr>shape = [1], data = [1]\<rparr>"
  "get_tensor ex_weights ''speculator.ln.0.bias'' = Inr \<lparr>shape = [1], data = [0]\<rparr>"
  "get_tensor ex_weights ''speculator.ln.1.weight'' = Inr \<lparr>shape = [1], data = [1]\<rparr>"
  "get_tensor ex_weights ''speculator.ln.1.bias'' = Inr \<lparr>shape = [1], data = [0]\<rparr>"
  "get_tensor ex_weights ''lm_head.weight'' = Inr \<lparr>shape = [2, 1], data = [1, 0]\<rparr>"
  by (simp_all add: get_tensor_def ex_weights_def ex_tensors_def)


lemma build_tied:
  assumes "build_layers cfg n prefix w True oid = Inr ((embs, projs, heads, lns), oid')"
  shows "\<exists>e p0 p1 h l.
           embs = replicate n e \<and> projs = p0 # replicate (n - 1) p1
         \<and> heads = replicate n h \<and> lns = replicate n l
         \<and> emb_oid e = oid \<and> lin_oid p0 = oid + 1 \<and> lin_oid p1 = oid + 2
         \<and> lin_oid h = oid + 3 \<and> ln_oid l = oid + 4 \<and> oid' = oid + 5"
proof -
  from assms obtain e p0 p1 h l where
    e: "TensorParallelEmbedding (prefix @ ''.emb.0'') w oid = Inr e" and
    p0: "FastLinear_load (prefix @ ''.proj.0'') w (oid + 1) = Inr p0" and
    p1: "FastLinear_load (prefix @ ''.proj.1'') w (oid + 2) = Inr p1" and
    h: "FastLinear_load (prefix @ ''.head.0'') w (oid + 3) = Inr h" and
    l: "MLPSpeculatorLayerNorm_init (Some (PStr (prefix @ ''.ln.0''))) (Some cfg) (Some w)
          (1 / 10 ^ 6) True (oid + 4) = Inr l" and
    r: "embs = replicate n e" "projs = p0 # replicate (n - 1) p1"
       "heads = replicate n h" "lns = replicate n l" "oid' = oid + 5"
    unfolding build_layers_def by (auto simp: rbind_Inr_iff)
  show ?thesis
    using r TensorParallelEmbedding_oid [OF e] FastLinear_load_oid [OF p0] FastLinear_load_oid [OF p1]
      FastLinear_load_oid [OF h] MLPSpeculatorLayerNorm_init_oid [OF l]
    by blast
qed

lemma build_untied:
  assumes "build_layers cfg n prefix w False oid = Inr ((embs, projs, heads, lns), oid')"
  shows "map emb_oid embs = [oid..<oid + n] \<and> map lin_oid projs = [oid + n..<oid + 2 * n]
       \<and> map lin_oid heads = [oid + 2 * n..<oid + 3 * n] \<and> map ln_oid lns = [oid + 3 * n..<oid + 4 * n]
       \<and> oid' = oid + 4 * n"
proof -
  from assms obtain o1 o2 o3 where
    e: "build_list (\<lambda>i. TensorParallelEmbedding (prefix @ ''.emb.'' @ str_nat i) w) [0..<n] oid
          = Inr (embs, o1)" and
    p: "build_list (\<lambda>i. FastLinear_load (prefix @ ''.proj.'' @ str_nat i) w) [0..<n] o1
          = Inr (projs, o2)" and
    h: "build_list (\<lambda>i. FastLinear_load (prefix @ ''.head.'' @ str_nat i) w) [0..<n] o2
          = Inr (heads, o3)" and
    l: "build_list (\<lambda>i. MLPSpeculatorLayerNorm_init (Some (PStr (prefix @ ''.ln.'' @ str_nat i)))
                               (Some cfg) (Some w) (1 / 10 ^ 6) True) [0..<n] o3
          = Inr (lns, oid')"
    unfolding build_layers_def by (auto simp: rbind_Inr_iff)
  have 1: "map emb_oid embs = [oid..<oid + n] \<and> o1 = oid + n"
    using build_list_oids [OF _ e, of emb_oid] TensorParallelEmbedding_oid by simp
  have 2: "map lin_oid projs = [o1..<o1 + n] \<and> o2 = o1 + n"
    using build_list_oids [OF _ p, of lin_oid] FastLinear_load_oid by simp
  have 3: "map lin_oid heads = [o2..<o2 + n] \<and> o3 = o2 + n"
    using build_list_oids [OF _ h, of lin_oid] FastLinear_load_oid by simp
  have 4: "map ln_oid lns = [o3..<o3 + n] \<and> oid' = o3 + n"
    using build_list_oids [OF _ l, of ln_oid] MLPSpeculatorLayerNorm_init_oid by simp
  have a: "oid + 2 * n = oid + (n + n)" "oid + 3 * n = oid + (n + (n + n))"
    "oid + 4 * n = oid + (n + (n + (n + n)))" by simp_all
  show ?thesis using 1 2 3 4 unfolding a by (simp add: add.assoc)
qed

lemma init_fields:
  assumes "MLPSpeculatorModel_init cfg n prefix w oid = Inr (m, oid')"
  shows "build_layers cfg n prefix w (dict_get (cfg_tie_weights (cfg_speculator_config cfg)) False) oid
           = Inr ((emb m, proj m, head m, ln m), oid')"
    and "n_predict m = n" and "top_k_tokens_per_head m = replicate n 1"
    and "0 < n" and "state_weight_of n = Inr (state_weight m)"
    and "emb_weight m = emb_weight_of (state_weight m)"
    and "tie_weights m = dict_get (cfg_tie_weights (cfg_speculator_config cfg)) False"
    and "scale_input m = False" and "ln0 m = None"
    and "dict_get (cfg_scale_input (cfg_speculator_config cfg)) False = False"
    and "activation m = GELU" and "vsize m = cfg_vocab_size cfg"
    and "hidden_size m = cfg_hidden_size cfg"
  using assms unfolding MLPSpeculatorModel_init_def Let_def
  by (auto simp: rbind_Inr_iff state_weight_of_def MLPSpeculatorLayerNorm_init_def split: if_splits)


lemma ex_build_tied:
  "build_layers cfg 2 ''speculator'' ex_weights True 0 =
     Inr ((emb (ex_model ks), proj (ex_model ks), head (ex_model ks), ln (ex_model ks)), 5)"
  by (simp add: build_layers_def ex_get_tensor TensorParallelEmbedding_def FastLinear_load_def
      MLPSpeculatorLayerNorm_init_def ex_model_def ex_ln_def)

lemma ex_init_tied:
  "MLPSpeculatorModel_init (ex_config True False) 2 ''speculator'' ex_weights 0 = Inr (ex_model [1, 1], 5)"
  by (simp add: MLPSpeculatorModel_init_def ex_config_def dict_get_def ex_build_tied [of _ "[1, 1]"]
      Let_def dict_item_def state_weight_of_def)
     (simp add: ex_model_def numeral_2_eq_2)

lemma ex_init_untied:
  "\<exists>m. MLPSpeculatorModel_init (ex_config False False) 2 ''speculator'' ex_weights 0 = Inr (m, 8)"
  by (simp add: MLPSpeculatorModel_init_def ex_config_def dict_get_def Let_def dict_item_def
      state_weight_of_def build_layers_def ex_get_tensor TensorParallelEmbedding_def
      FastLinear_load_def MLPSpeculatorLayerNorm_init_def upt_rec str_nat.simps digit_char_def)

subsection \<open>Construction with \<open>scale_input\<close>\<close>

text \<open>
  Claim C5 says that construction with \<open>scaleInput\<close> succeeds and adds a normaliser without
  affine parameters. Line 126 calls \<open>MLPSpeculatorLayerNorm(self.hidden_size,
  elementwise_scale_and_shift=False)\<close>, leaving out the required \<open>config\<close> and \<open>weights\<close>:
  the constructor raises TypeError whenever \<open>scale_input\<close> is set. Evaluated on the small
  configuration:
\<close>

theorem C5_scale_input_construction_raises:
  "MLPSpeculatorModel_init (ex_config True True) 2 ''speculator'' ex_weights 0
     = Inl (TypeError ''__init__() missing required positional arguments'')"
  by (simp add: MLPSpeculatorModel_init_def ex_config_def dict_get_def
      ex_build_tied [of _ "[1, 1]"] Let_def MLPSpeculatorLayerNorm_init_def)

subsection \<open>Where the length of the top-k list is checked\<close>

lemma forward_topk_length:
  assumes "length (top_k_tokens_per_head m) \<noteq> n_predict m"
  shows "\<exists>e. MLPSpeculatorModel_forward sel m u h ids = Inl e"
    and "rescale_input m h = Inr st \<Longrightarrow> shape st \<noteq> [] \<Longrightarrow>
         MLPSpeculatorModel_forward sel m u h ids =
           Inl (AssertionError (topk_message (n_predict m) (length (top_k_tokens_per_head m))))"
proof -
  show "\<exists>e. MLPSpeculatorModel_forward sel m u h ids = Inl e"
    using assms unfolding MLPSpeculatorModel_forward_def Let_def
    by (cases "rescale_input m h")
       (auto simp: size_dim_def nth_res_def unsqueeze_def)
  show "rescale_input m h = Inr st \<Longrightarrow> shape st \<noteq> [] \<Longrightarrow>
         MLPSpeculatorModel_forward sel m u h ids =
           Inl (AssertionError (topk_message (n_predict m) (length (top_k_tokens_per_head m))))"
    using assms unfolding MLPSpeculatorModel_forward_def Let_def
    by (simp add: size_dim_def nth_res_def unsqueeze_def)
qed

text \<open>
  Claim C4 as the code has it. The constructor takes no top-k list and checks none: when it
  returns, the model's list is \<open>N\<close> ones. A list of another length can only be put into the
  model afterwards; every forward call then fails, with the assertion of lines 156-158 (the
  spec's ShapeMismatchError) as soon as the rescaling of the input and the read of the
  batch size have gone through, and before any head is run.
\<close>

theorem C4_topk_length_checked_at_forward:
  "(MLPSpeculatorModel_init cfg n prefix w oid = Inr (m, oid')
      \<longrightarrow> top_k_tokens_per_head m = replicate n 1 \<and> n_predict m = n
          \<and> length (top_k_tokens_per_head m) = n_predict m)
   \<and> (length (top_k_tokens_per_head m') \<noteq> n_predict m'
      \<longrightarrow> (\<exists>e. MLPSpeculatorModel_forward sel m' u h ids = Inl e)
          \<and> (\<forall>st. rescale_input m' h = Inr st \<and> shape st \<noteq> []
                \<longrightarrow> MLPSpeculatorModel_forward sel m' u h ids =
                      Inl (AssertionError (topk_message (n_predict m')
                             (length (top_k_tokens_per_head m'))))))"
  using init_fields(2,3) [of cfg n prefix w oid m oid'] forward_topk_length [where m = m' and sel = sel and u = u and h = h and ids = ids]
  by auto

theorem C4_topk_length_checked_at_forward_witness:
  "MLPSpeculatorModel_init (ex_config True False) 2 ''speculator'' ex_weights 0 = Inr (ex_model [1, 1], 5)
   \<and> top_k_tokens_per_head (ex_model [1, 1]) = replicate 2 1
   \<and> length (top_k_tokens_per_head (ex_model [1])) \<noteq> n_predict (ex_model [1])
   \<and> rescale_input (ex_model [1]) ex_hidden = Inr ex_hidden \<and> shape ex_hidden \<noteq> []
   \<and> MLPSpeculatorModel_forward stable_topk (ex_model [1]) 0 ex_hidden ex_ids =
        Inl (AssertionError ''You must provide a topk number for each head (2 heads, 1 provided)'')"
proof -
  have a: "length (top_k_tokens_per_head (ex_model [1])) \<noteq> n_predict (ex_model [1])"
    by (simp add: ex_model_def)
  have b: "rescale_input (ex_model [1]) ex_hidden = Inr ex_hidden \<and> shape ex_hidden \<noteq> []"
    by (simp add: rescale_input_def ex_model_def ex_hidden_def)
  have c: "topk_message (n_predict (ex_model [1])) (length (top_k_tokens_per_head (ex_model [1])))
      = ''You must provide a topk number for each head (2 heads, 1 provided)''"
    by (simp add: topk_message_def ex_model_def str_nat.simps digit_char_def)
  note T = C4_topk_length_checked_at_forward [of "ex_config True False" 2 "''speculator''" ex_weights 0
      "ex_model [1, 1]" 5 "ex_model [1]" stable_topk 0 ex_hidden ex_ids]
  have d: "top_k_tokens_per_head (ex_model [1, 1]) = replicate 2 1"
    using T [THEN conjunct1, rule_format, OF ex_init_tied] by blast
  have e: "MLPSpeculatorModel_forward stable_topk (ex_model [1]) 0 ex_hidden ex_ids =
        Inl (AssertionError ''You must provide a topk number for each head (2 heads, 1 provided)'')"
    using T [THEN conjunct2, rule_format, OF a, THEN conjunct2, rule_format, OF b] c by simp
  show ?thesis using ex_init_tied a b d e by blast
qed

text \<open>
  Claim C4 as the spec states it fails: building a two-head model and then giving it a
  top-k list of length one raises nothing.
\<close>

theorem C4_construction_counterexample:
  "rbind (MLPSpeculatorModel_init (ex_config True False) 2 ''speculator'' ex_weights 0)
     (\<lambda>(m, oid'). Inr (m\<lparr>top_k_tokens_per_head := [1]\<rparr>)) = Inr (ex_model [1])
   \<and> length (top_k_tokens_per_head (ex_model [1])) \<noteq> n_predict (ex_model [1])"
  by (simp add: ex_init_tied) (simp add: ex_model_def)

subsection \<open>Weight tying\<close>

lemma run_heads_tie_flag:
  "run_heads sel (m\<lparr>tie_weights := b\<rparr>) bs is s = run_heads sel m bs is s"
proof (induction "is" arbitrary: s)
  case Nil
  then show ?case by simp
next
  case (Cons i "is")
  have "head_step sel (m\<lparr>tie_weights := b\<rparr>) bs i s = head_step sel m bs i s"
    by (simp add: head_step_def mix_state_def predict_def branch_def)
  then show ?case using Cons.IH by (simp add: rbind_def split: sum.splits)
qed

lemma forward_tie_flag:
  "MLPSpeculatorModel_forward sel (m\<lparr>tie_weights := b\<rparr>) = MLPSpeculatorModel_forward sel m"
  by (intro ext)
     (simp add: MLPSpeculatorModel_forward_def rescale_input_def run_heads_tie_flag Let_def cong: if_cong)

lemma card_image_replicate: "0 < n \<Longrightarrow> card (f ` set (replicate n x)) = 1"
  by simp

text \<open>
  Claim C6. With \<open>tie_weights\<close> the constructor creates five layer objects: one embedding
  table, two state projections, one output projection and one normaliser. The first state
  projection sits at step 0 only and the second at every step from 1 to \<open>N - 1\<close>; the
  embedding, the output projection and the normaliser are each shared by all \<open>N\<close> steps.
  Without \<open>tie_weights\<close> it creates \<open>4 * N\<close> objects, \<open>N\<close> of each kind and no two the same.
  The forward pass never reads the flag.
\<close>

theorem C6_weight_tying:
  assumes "MLPSpeculatorModel_init cfg n prefix w oid = Inr (m, oid')"
  shows "(cfg_tie_weights (cfg_speculator_config cfg) = Some True \<longrightarrow>
            (\<exists>e p0 p1 h l.
                emb m = replicate n e \<and> head m = replicate n h \<and> ln m = replicate n l
              \<and> proj m = p0 # replicate (n - 1) p1 \<and> lin_oid p0 \<noteq> lin_oid p1
              \<and> proj m ! 0 = p0 \<and> (\<forall>i. 1 \<le> i \<and> i < n \<longrightarrow> proj m ! i = p1)
              \<and> [emb_oid e, lin_oid p0, lin_oid p1, lin_oid h, ln_oid l] = [oid..<oid + 5]
              \<and> oid' = oid + 5)
          \<and> length (emb m) = n \<and> length (proj m) = n \<and> length (head m) = n \<and> length (ln m) = n
          \<and> card (emb_oid ` set (emb m)) = 1 \<and> card (lin_oid ` set (head m)) = 1
          \<and> card (ln_oid ` set (ln m)) = 1
          \<and> (2 \<le> n \<longrightarrow> card (lin_oid ` set (proj m)) = 2))
       \<and> (cfg_tie_weights (cfg_speculator_config cfg) \<noteq> Some True \<longrightarrow>
            length (emb m) = n \<and> length (proj m) = n \<and> length (head m) = n \<and> length (ln m) = n
          \<and> distinct (map emb_oid (emb m) @ map lin_oid (proj m) @ map lin_oid (head m)
                      @ map ln_oid (ln m))
          \<and> oid' = oid + 4 * n)
       \<and> (\<forall>b. MLPSpeculatorModel_forward sel (m\<lparr>tie_weights := b\<rparr>) = MLPSpeculatorModel_forward sel m)"
proof (intro conjI impI)
  note f = init_fields [OF assms]
  {
    assume tie: "cfg_tie_weights (cfg_speculator_config cfg) = Some True"
    then have "build_layers cfg n prefix w True oid = Inr ((emb m, proj m, head m, ln m), oid')"
      using f(1) by (simp add: dict_get_def)
    from build_tied [OF this] obtain e p0 p1 h l where
      s: "emb m = replicate n e" "proj m = p0 # replicate (n - 1) p1"
         "head m = replicate n h" "ln m = replicate n l"
         "emb_oid e = oid" "lin_oid p0 = oid + 1" "lin_oid p1 = oid + 2"
         "lin_oid h = oid + 3" "ln_oid l = oid + 4" "oid' = oid + 5"
      by blast
    have ids: "[emb_oid e, lin_oid p0, lin_oid p1, lin_oid h, ln_oid l] = [oid..<oid + 5]"
      using s by (simp add: upt_rec [of oid] upt_rec [of "Suc oid"] upt_rec [of "Suc (Suc oid)"]
          upt_rec [of "Suc (Suc (Suc oid))"] upt_rec [of "Suc (Suc (Suc (Suc oid)))"]
          upt_rec [of "Suc (Suc (Suc (Suc (Suc oid))))"] numeral_eq_Suc)
    have later: "\<forall>i. 1 \<le> i \<and> i < n \<longrightarrow> proj m ! i = p1"
      using s(2) by (auto simp: nth_Cons split: nat.splits)
    show "\<exists>e p0 p1 h l.
                emb m = replicate n e \<and> head m = replicate n h \<and> ln m = replicate n l
              \<and> proj m = p0 # replicate (n - 1) p1 \<and> lin_oid p0 \<noteq> lin_oid p1
              \<and> proj m ! 0 = p0 \<and> (\<forall>i. 1 \<le> i \<and> i < n \<longrightarrow> proj m ! i = p1)
              \<and> [emb_oid e, lin_oid p0, lin_oid p1, lin_oid h, ln_oid l] = [oid..<oid + 5]
              \<and> oid' = oid + 5"
      using s ids later by (intro exI [of _ e] exI [of _ p0] exI [of _ p1] exI [of _ h] exI [of _ l]) simp
    show "length (emb m) = n" "length (head m) = n" "length (ln m) = n"
      using s by simp_all
    show "length (proj m) = n" using s f(4) by simp
    show "card (emb_oid ` set (emb m)) = 1" "card (lin_oid ` set (head m)) = 1"
      "card (ln_oid ` set (ln m)) = 1"
      using s f(4) by simp_all
    show "card (lin_oid ` set (proj m)) = 2" if "2 \<le> n"
    proof -
      have "set (proj m) = {p0, p1}" using s(2) that by auto
      then show ?thesis using s by simp
    qed
  }
  {
    assume "cfg_tie_weights (cfg_speculator_config cfg) \<noteq> Some True"
    then have "dict_get (cfg_tie_weights (cfg_speculator_config cfg)) False = False"
      by (cases "cfg_tie_weights (cfg_speculator_config cfg)") (auto simp: dict_get_def)
    then have "build_layers cfg n prefix w False oid = Inr ((emb m, proj m, head m, ln m), oid')"
      using f(1) by simp
    note u = build_untied [OF this]
    have len: "length (map emb_oid (emb m)) = n" "length (map lin_oid (proj m)) = n"
      "length (map lin_oid (head m)) = n" "length (map ln_oid (ln m)) = n"
      using u by simp_all
    show "length (emb m) = n" "length (proj m) = n" "length (head m) = n" "length (ln m) = n"
      using len by simp_all
    have "map emb_oid (emb m) @ map lin_oid (proj m) @ map lin_oid (head m) @ map ln_oid (ln m)
        = [oid..<oid + 4 * n]"
    proof -
      have a: "oid + 2 * n = oid + n + n" "oid + 3 * n = oid + n + n + n"
        "oid + 4 * n = oid + n + n + n + n" by simp_all
      have "[oid..<oid + n + n + n + n] = [oid..<oid + n + n + n] @ [oid + n + n + n..<oid + n + n + n + n]"
        by (rule upt_add_eq_append) simp
      moreover have "[oid..<oid + n + n + n] = [oid..<oid + n + n] @ [oid + n + n..<oid + n + n + n]"
        by (rule upt_add_eq_append) simp
      moreover have "[oid..<oid + n + n] = [oid..<oid + n] @ [oid + n..<oid + n + n]"
        by (rule upt_add_eq_append) simp
      ultimately have "[oid..<oid + n + n + n + n] = [oid..<oid + n] @ [oid + n..<oid + n + n]
          @ [oid + n + n..<oid + n + n + n] @ [oid + n + n + n..<oid + n + n + n + n]"
        by simp
      then show ?thesis using u unfolding a by simp
    qed
    then show "distinct (map emb_oid (emb m) @ map lin_oid (proj m) @ map lin_oid (head m)
                      @ map ln_oid (ln m))"
      by (simp only: distinct_upt)
    show "oid' = oid + 4 * n" using u by simp
  }
  show "\<forall>b. MLPSpeculatorModel_forward sel (m\<lparr>tie_weights := b\<rparr>) = MLPSpeculatorModel_forward sel m"
    by (simp add: forward_tie_flag)
qed

theorem C6_weight_tying_witness:
  "MLPSpeculatorModel_init (ex_config True False) 2 ''speculator'' ex_weights 0 = Inr (ex_model [1, 1], 5)
   \<and> cfg_tie_weights (cfg_speculator_config (ex_config True False)) = Some True
   \<and> card (lin_oid ` set (proj (ex_model [1, 1]))) = 2
   \<and> card (emb_oid ` set (emb (ex_model [1, 1]))) = 1
   \<and> (\<exists>m. MLPSpeculatorModel_init (ex_config False False) 2 ''speculator'' ex_weights 0 = Inr (m, 8)
          \<and> cfg_tie_weights (cfg_speculator_config (ex_config False False)) \<noteq> Some True
          \<and> distinct (map emb_oid (emb m) @ map lin_oid (proj m) @ map lin_oid (head m)
                      @ map ln_oid (ln m)))"
proof -
  have t: "cfg_tie_weights (cfg_speculator_config (ex_config True False)) = Some True"
    and u: "cfg_tie_weights (cfg_speculator_config (ex_config False False)) \<noteq> Some True"
    by (simp_all add: ex_config_def)
  obtain m where m: "MLPSpeculatorModel_init (ex_config False False) 2 ''speculator'' ex_weights 0 = Inr (m, 8)"
    using ex_init_untied by blast
  note A = C6_weight_tying [OF ex_init_tied, THEN conjunct1, rule_format, OF t]
  note B = C6_weight_tying [OF m, THEN conjunct2, THEN conjunct1, rule_format, OF u]
  have a1: "card (emb_oid ` set (emb (ex_model [1, 1]))) = 1" using A by blast
  have a2: "card (lin_oid ` set (proj (ex_model [1, 1]))) = 2" using A by simp
  have b1: "distinct (map emb_oid (emb m) @ map lin_oid (proj m) @ map lin_oid (head m)
                      @ map ln_oid (ln m))" using B by blast
  show ?thesis
    using ex_init_tied t a1 a2 m u b1 by blast
qed

subsection \<open>Rows of a tensor and broadcasting\<close>

lemma length_rows [simp]: "length (rows m d xs) = m"
  by (simp add: rows_def)

lemma nth_rows: "i < m \<Longrightarrow> rows m d xs ! i = take d (drop (i * d) xs)"
  by (simp add: rows_def)

lemma rows_Suc: "rows (Suc m) d xs = take d xs # rows m d (drop d xs)"
proof -
  have "rows (Suc m) d xs = map (\<lambda>j. take d (drop (j * d) xs)) (0 # map Suc [0..<m])"
    unfolding rows_def by (simp only: upt_conv_Cons [of 0 "Suc m"] map_Suc_upt [symmetric])
  then show ?thesis by (simp add: rows_def comp_def add.commute)
qed

lemma rows_0 [simp]: "rows 0 d xs = []"
  by (simp add: rows_def)

lemma concat_rows: "length xs = m * d \<Longrightarrow> concat (rows m d xs) = xs"
proof (induction m arbitrary: xs)
  case 0
  then show ?case by simp
next
  case (Suc m)
  then have "length (drop d xs) = m * d" by simp
  from Suc.IH [OF this] show ?case by (simp add: rows_Suc)
qed

lemma rows_length: "m * d \<le> length xs \<Longrightarrow> r \<in> set (rows m d xs) \<Longrightarrow> length r = d"
proof (induction m arbitrary: xs)
  case 0
  then show ?case by simp
next
  case (Suc m)
  then have a: "m * d \<le> length (drop d xs)" and b: "d \<le> length xs" by simp_all
  from Suc.prems(2) consider "r = take d xs" | "r \<in> set (rows m d (drop d xs))"
    by (auto simp: rows_Suc)
  then show ?case
  proof cases
    case 1
    then show ?thesis using b by simp
  next
    case 2
    then show ?thesis by (rule Suc.IH [OF a])
  qed
qed

lemma rows_concat:
  "length rs = m \<Longrightarrow> \<forall>r \<in> set rs. length r = d \<Longrightarrow> rows m d (concat rs) = rs"
proof (induction rs arbitrary: m)
  case Nil
  then show ?case by simp
next
  case (Cons r rs)
  then obtain m' where m: "m = Suc m'" "length rs = m'" by (cases m) auto
  with Cons show ?case by (simp add: rows_Suc)
qed

lemma rows_concat_prefix:
  "length rs = m \<Longrightarrow> \<forall>r \<in> set rs. length r = d \<Longrightarrow> rows m d (concat rs @ ys) = rs"
proof (induction rs arbitrary: m)
  case Nil
  then show ?case by simp
next
  case (Cons r rs)
  then obtain m' where m: "m = Suc m'" "length rs = m'" by (cases m) auto
  with Cons show ?case by (simp add: rows_Suc)
qed

lemma length_concat_const:
  "\<forall>r \<in> set rs. length r = d \<Longrightarrow> length (concat rs) = length rs * d"
  by (induction rs) simp_all

lemma expand_to_same: "length xs = prod_list s \<Longrightarrow> expand_to s s xs = xs"
proof (induction s arbitrary: xs)
  case Nil
  then show ?case by simp
next
  case (Cons a s)
  have "map (expand_to s s) (rows a (prod_list s) xs) = rows a (prod_list s) xs"
  proof (rule map_idI)
    fix r assume "r \<in> set (rows a (prod_list s) xs)"
    then have "length r = prod_list s" using Cons.prems by (intro rows_length [of a _ xs]) simp_all
    then show "expand_to s s r = r" by (rule Cons.IH)
  qed
  then show ?case using Cons.prems by (simp add: concat_rows)
qed

lemma bdims_same [simp]: "bdims s s = Some s"
  by (induction s) simp_all

lemma binop_same_shape:
  assumes "shape a = shape b" "wf_tensor a" "wf_tensor b"
  shows "binop f a b = Inr \<lparr>shape = shape a, data = map (\<lambda>(x, y). f x y) (zip (data a) (data b))\<rparr>"
  using assms by (simp add: binop_def pad_shape_def expand_to_same wf_tensor_def)


lemma rows_map: "rows m d (map f xs) = map (map f) (rows m d xs)"
  by (simp add: rows_def take_map drop_map)

lemma map2_concat:
  assumes "length rs = length qs" "\<forall>(r, q) \<in> set (zip rs qs). length r = length q"
  shows "map2 f (concat rs) (concat qs) = concat (map2 (\<lambda>r q. map2 f r q) rs qs)"
  using assms by (induction rs qs rule: list_induct2) simp_all

lemma map2_replicate_right: "length r = d \<Longrightarrow> map2 f r (replicate d v) = map (\<lambda>a. f a v) r"
  by (induction r arbitrary: d) auto

lemma concat_replicate_append: "concat (replicate (a + b) w) = concat (replicate a w) @ concat (replicate b w)"
  by (simp add: replicate_add)

lemma concat_replicate_mult: "concat (replicate a (concat (replicate b w))) = concat (replicate (a * b) w)"
  by (induction a) (simp_all add: replicate_add)

lemma concat_map_concat: "concat (map (\<lambda>r. concat (map g r)) rs) = concat (map g (concat rs))"
  by (induction rs) simp_all

lemma expand_to_keepdim:
  "length ms = prod_list S \<Longrightarrow> expand_to (S @ [1]) (S @ [D]) ms = concat (map (replicate D) ms)"
proof (induction S arbitrary: ms)
  case Nil
  then obtain x where ms: "ms = [x]" by (cases ms) auto
  show ?case
  proof (cases "D = 1")
    case True
    then show ?thesis using expand_to_same [of ms "[1]"] ms by (simp del: expand_to.simps)
  next
    case False
    then show ?thesis using ms by simp
  qed
next
  case (Cons a S)
  let ?rs = "rows a (prod_list S) ms"
  have len: "\<And>r. r \<in> set ?rs \<Longrightarrow> length r = prod_list S"
    using Cons.prems by (intro rows_length [of a _ ms]) simp_all
  have "expand_to ((a # S) @ [1]) ((a # S) @ [D]) ms
      = concat (map (expand_to (S @ [1]) (S @ [D])) ?rs)"
    by simp
  also have "\<dots> = concat (map (\<lambda>r. concat (map (replicate D) r)) ?rs)"
    using Cons.IH len by (intro arg_cong [where f = concat] map_cong refl) blast
  also have "\<dots> = concat (map (replicate D) (concat ?rs))"
    by (rule concat_map_concat)
  also have "concat ?rs = ms" using Cons.prems by (simp add: concat_rows)
  finally show ?case .
qed

lemma expand_to_vector:
  "length S = n \<Longrightarrow> length w = D \<Longrightarrow>
   expand_to (replicate n 1 @ [D]) (S @ [D]) w = concat (replicate (prod_list S) w)"
proof (induction S arbitrary: n)
  case Nil
  then show ?case using expand_to_same [of w "[D]"] by (simp del: expand_to.simps)
next
  case (Cons a S)
  then obtain n' where n: "n = Suc n'" "length S = n'" by (cases n) auto
  let ?rest = "replicate n' 1 @ [D]"
  have p: "prod_list ?rest = D" by (induction n') simp_all
  have r1: "rows 1 D w = [w]" using Cons.prems by (simp add: rows_def)
  have IH: "expand_to ?rest (S @ [D]) w = concat (replicate (prod_list S) w)"
    by (rule Cons.IH [OF n(2) Cons.prems(2)])
  have e: "expand_to (replicate n 1 @ [D]) ((a # S) @ [D]) w
      = (if 1 = a then concat (map (expand_to ?rest (S @ [D])) (rows 1 (prod_list ?rest) w))
         else concat (replicate a (expand_to ?rest (S @ [D]) w)))"
    unfolding n by simp
  show ?case
  proof (cases "a = 1")
    case True
    then show ?thesis using IH p r1 by (simp add: n)
  next
    case False
    then show ?thesis using IH by (simp add: n concat_replicate_mult)
  qed
qed

lemma bdims_keepdim: "bdims (S @ [D]) (S @ [1]) = Some (S @ [D])"
  by (induction S) simp_all

lemma bdims_vector_left: "length S = n \<Longrightarrow> bdims (replicate n 1 @ [D]) (S @ [D]) = Some (S @ [D])"
  by (induction S arbitrary: n) auto

lemma bdims_vector_right: "length S = n \<Longrightarrow> bdims (S @ [D]) (replicate n 1 @ [D]) = Some (S @ [D])"
  by (induction S arbitrary: n) auto


lemma pad_shape_same [simp]: "pad_shape (length s) s = s"
  by (simp add: pad_shape_def)

lemma map2_map_right: "map2 g rs (map h ms) = map2 (\<lambda>r v. g r (h v)) rs ms"
  by (simp add: zip_map2 comp_def case_prod_beta)

lemma map2_cong_zip:
  "(\<And>r v. (r, v) \<in> set (zip rs ms) \<Longrightarrow> g r v = g' r v) \<Longrightarrow> map2 g rs ms = map2 g' rs ms"
  by (rule map_cong [OF refl]) auto

lemma map2_replicate_left_list:
  "length rs = m \<Longrightarrow> map2 g (replicate m w) rs = map (g w) rs"
  by (induction rs arbitrary: m) auto

lemma map2_replicate_right_list:
  "length rs = m \<Longrightarrow> map2 g rs (replicate m w) = map (\<lambda>r. g r w) rs"
  by (induction rs arbitrary: m) auto

lemma zip_lengths:
  assumes "\<And>r. r \<in> set rs \<Longrightarrow> length r = d" "\<And>q. q \<in> set qs \<Longrightarrow> length q = d"
  shows "\<forall>(r, q) \<in> set (zip rs qs). length r = length q"
proof (clarify)
  fix r q assume "(r, q) \<in> set (zip rs qs)"
  then have "r \<in> set rs" "q \<in> set qs" by (auto dest: set_zip_leftD set_zip_rightD)
  then show "length r = length q" using assms by simp
qed

lemma binop_keepdim:
  assumes a: "shape a = S @ [D]" and m: "shape m = S @ [1]" and "wf_tensor a" "wf_tensor m"
  shows "binop f a m = Inr \<lparr>shape = S @ [D],
           data = concat (map2 (\<lambda>r v. map (\<lambda>x. f x v) r) (rows (prod_list S) D (data a)) (data m))\<rparr>"
proof -
  let ?rs = "rows (prod_list S) D (data a)"
  have la: "length (data a) = prod_list S * D" and lm: "length (data m) = prod_list S"
    using assms by (simp_all add: wf_tensor_def)
  have rl: "\<And>r. r \<in> set ?rs \<Longrightarrow> length r = D"
    using la by (intro rows_length [of "prod_list S" D "data a"]) simp_all
  have ea: "expand_to (S @ [D]) (S @ [D]) (data a) = concat ?rs"
    using la by (simp add: expand_to_same concat_rows)
  have em: "expand_to (S @ [1]) (S @ [D]) (data m) = concat (map (replicate D) (data m))"
    using lm by (rule expand_to_keepdim)
  have "map2 f (concat ?rs) (concat (map (replicate D) (data m)))
      = concat (map2 (\<lambda>r q. map2 f r q) ?rs (map (replicate D) (data m)))"
    by (rule map2_concat, (use lm in simp), rule zip_lengths [where d = D]) (use rl in auto)
  also have "\<dots> = concat (map2 (\<lambda>r v. map2 f r (replicate D v)) ?rs (data m))"
    by (simp only: map2_map_right)
  also have "map2 (\<lambda>r v. map2 f r (replicate D v)) ?rs (data m)
      = map2 (\<lambda>r v. map (\<lambda>x. f x v) r) ?rs (data m)"
    by (rule map2_cong_zip) (use rl in \<open>auto dest!: set_zip_leftD intro!: map2_replicate_right\<close>)
  finally have d: "map2 f (concat ?rs) (concat (map (replicate D) (data m)))
      = concat (map2 (\<lambda>r v. map (\<lambda>x. f x v) r) ?rs (data m))" .
  have n: "max (length (shape a)) (length (shape m)) = length (S @ [D])"
    "length (S @ [D]) = length (S @ [1])" using a m by simp_all
  show ?thesis
    unfolding binop_def Let_def a m
    using bdims_keepdim [of S D] ea em d
    by (simp del: expand_to.simps bdims.simps add: pad_shape_def)
qed

lemma binop_vector_left:
  assumes w: "shape w = [D]" and x: "shape x = S @ [D]" and "wf_tensor w" "wf_tensor x"
  shows "binop f w x = Inr \<lparr>shape = S @ [D],
           data = concat (map (\<lambda>r. map2 f (data w) r) (rows (prod_list S) D (data x)))\<rparr>"
proof -
  let ?rs = "rows (prod_list S) D (data x)"
  have lw: "length (data w) = D" and lx: "length (data x) = prod_list S * D"
    using assms by (simp_all add: wf_tensor_def)
  have rl: "\<And>r. r \<in> set ?rs \<Longrightarrow> length r = D"
    using lx by (intro rows_length [of "prod_list S" D "data x"]) simp_all
  have ex: "expand_to (S @ [D]) (S @ [D]) (data x) = concat ?rs"
    using lx by (simp add: expand_to_same concat_rows)
  have ew: "expand_to (replicate (length S) 1 @ [D]) (S @ [D]) (data w)
      = concat (replicate (prod_list S) (data w))"
    using lw by (intro expand_to_vector) simp_all
  have "map2 f (concat (replicate (prod_list S) (data w))) (concat ?rs)
      = concat (map2 (\<lambda>r q. map2 f r q) (replicate (prod_list S) (data w)) ?rs)"
    by (rule map2_concat, simp, rule zip_lengths [where d = D]) (use lw rl in auto)
  also have "\<dots> = concat (map (\<lambda>r. map2 f (data w) r) ?rs)"
    by (simp add: map2_replicate_left_list)
  finally have d: "map2 f (concat (replicate (prod_list S) (data w))) (concat ?rs)
      = concat (map (\<lambda>r. map2 f (data w) r) ?rs)" .
  show ?thesis
    unfolding binop_def Let_def w x
    using bdims_vector_left [of S "length S" D] ex ew d
    by (simp del: expand_to.simps bdims.simps add: pad_shape_def)
qed

lemma binop_vector_right:
  assumes b: "shape b = [D]" and x: "shape x = S @ [D]" and "wf_tensor b" "wf_tensor x"
  shows "binop f x b = Inr \<lparr>shape = S @ [D],
           data = concat (map (\<lambda>r. map2 f r (data b)) (rows (prod_list S) D (data x)))\<rparr>"
proof -
  let ?rs = "rows (prod_list S) D (data x)"
  have lw: "length (data b) = D" and lx: "length (data x) = prod_list S * D"
    using assms by (simp_all add: wf_tensor_def)
  have rl: "\<And>r. r \<in> set ?rs \<Longrightarrow> length r = D"
    using lx by (intro rows_length [of "prod_list S" D "data x"]) simp_all
  have ex: "expand_to (S @ [D]) (S @ [D]) (data x) = concat ?rs"
    using lx by (simp add: expand_to_same concat_rows)
  have ew: "expand_to (replicate (length S) 1 @ [D]) (S @ [D]) (data b)
      = concat (replicate (prod_list S) (data b))"
    using lw by (intro expand_to_vector) simp_all
  have "map2 f (concat ?rs) (concat (replicate (prod_list S) (data b)))
      = concat (map2 (\<lambda>r q. map2 f r q) ?rs (replicate (prod_list S) (data b)))"
    by (rule map2_concat, simp, rule zip_lengths [where d = D]) (use lw rl in auto)
  also have "\<dots> = concat (map (\<lambda>r. map2 f r (data b)) ?rs)"
    by (simp add: map2_replicate_right_list)
  finally have d: "map2 f (concat ?rs) (concat (replicate (prod_list S) (data b)))
      = concat (map (\<lambda>r. map2 f r (data b)) ?rs)" .
  show ?thesis
    unfolding binop_def Let_def b x
    using bdims_vector_right [of S "length S" D] ex ew d
    by (simp del: expand_to.simps bdims.simps add: pad_shape_def)
qed


lemma shape_snoc: "shape x \<noteq> [] \<Longrightarrow> shape x = butlast (shape x) @ [last (shape x)]"
  by simp

lemma last_rows_snoc: "shape t = S @ [D] \<Longrightarrow> last_rows t = rows (prod_list S) D (data t)"
  by (simp add: last_rows_def last_dim_def)

lemma rows_concat_map:
  assumes "length rs = m" "\<And>r. r \<in> set rs \<Longrightarrow> length (g r) = d"
  shows "rows m d (concat (map g rs)) = map g rs"
  by (rule rows_concat) (use assms in auto)

lemma wf_concat_rows:
  assumes "length rs = prod_list S" "\<And>r. r \<in> set rs \<Longrightarrow> length r = D"
  shows "wf_tensor \<lparr>shape = S @ [D], data = concat rs\<rparr>"
  using assms length_concat_const [of rs D] by (simp add: wf_tensor_def)

lemma affine_row_map2: "affine_row w b r = map2 (+) (map2 (*) w r) b"
  unfolding affine_row_def
  by (induction w r arbitrary: b rule: list_induct2') (auto, case_tac b, auto)

lemma length_rms_row [simp]: "length (rms_row e r) = length r"
  by (simp add: rms_row_def)

lemma rms_forward:
  assumes x: "shape x = S @ [D]" and wf: "wf_tensor x"
  shows "binop (*) x (map_tensor (\<lambda>v. 1 / sqrt v)
           (map_tensor (\<lambda>v. v + e) (mean_last_keepdim (map_tensor (\<lambda>v. v\<^sup>2) x))))
       = Inr \<lparr>shape = S @ [D], data = concat (map (rms_row e) (rows (prod_list S) D (data x)))\<rparr>"
proof -
  let ?rs = "rows (prod_list S) D (data x)"
  let ?m = "map_tensor (\<lambda>v. 1 / sqrt v)
           (map_tensor (\<lambda>v. v + e) (mean_last_keepdim (map_tensor (\<lambda>v. v\<^sup>2) x)))"
  have lx: "length (data x) = prod_list S * D" using x wf by (simp add: wf_tensor_def)
  have rl: "\<And>r. r \<in> set ?rs \<Longrightarrow> length r = D"
    using lx by (intro rows_length [of "prod_list S" D "data x"]) simp_all
  have sm: "shape ?m = S @ [1]"
    using x by (simp add: map_tensor_def mean_last_keepdim_def)
  have dm: "data ?m = map (\<lambda>r. 1 / sqrt (sum_list (map (\<lambda>a. a\<^sup>2) r) / real D + e)) ?rs"
    using x by (simp add: map_tensor_def mean_last_keepdim_def last_rows_def last_dim_def rows_map comp_def)
  have wm: "wf_tensor ?m" unfolding wf_tensor_def sm dm by simp
  have "map2 (\<lambda>r v. map (\<lambda>a. a * v) r) ?rs (data ?m) = map (rms_row e) ?rs"
    unfolding dm map2_map_right
    by (simp add: zip_same_conv_map rms_row_def rl cong: map_cong)
  with binop_keepdim [OF x sm wf wm, of "(*)"] show ?thesis by simp
qed

lemma layernorm_forward_rows:
  assumes x: "shape x = S @ [D]" and wf: "wf_tensor x"
    and aff: "elementwise_scale_and_shift l \<Longrightarrow>
              \<exists>w b. ln_weight l = Some w \<and> ln_bias l = Some b \<and> shape w = [D] \<and> shape b = [D]
                   \<and> wf_tensor w \<and> wf_tensor b"
  shows "MLPSpeculatorLayerNorm_forward l x
       = Inr \<lparr>shape = S @ [D], data = concat (map (normalizer_row l) (rows (prod_list S) D (data x)))\<rparr>"
proof -
  let ?rs = "rows (prod_list S) D (data x)"
  let ?xf = "\<lparr>shape = S @ [D], data = concat (map (rms_row (eps l)) ?rs)\<rparr>"
  have lx: "length (data x) = prod_list S * D" using x wf by (simp add: wf_tensor_def)
  have rl: "\<And>r. r \<in> set ?rs \<Longrightarrow> length r = D"
    using lx by (intro rows_length [of "prod_list S" D "data x"]) simp_all
  note rms = rms_forward [OF x wf, of "eps l"]
  show ?thesis
  proof (cases "elementwise_scale_and_shift l")
    case False
    then show ?thesis
      unfolding MLPSpeculatorLayerNorm_forward_def rms
      by (simp add: rbind_def normalizer_row_def cong: map_cong)
  next
    case True
    from aff [OF True] obtain w b where wb: "ln_weight l = Some w" "ln_bias l = Some b"
      "shape w = [D]" "shape b = [D]" "wf_tensor w" "wf_tensor b" by blast
    have wxf: "wf_tensor ?xf" by (rule wf_concat_rows) (use rl in auto)
    have rxf: "rows (prod_list S) D (data ?xf) = map (rms_row (eps l)) ?rs"
      by (simp add: rows_concat_map rl)
    let ?x1 = "\<lparr>shape = S @ [D], data = concat (map (\<lambda>r. map2 (*) (data w) (rms_row (eps l) r)) ?rs)\<rparr>"
    have 1: "binop (*) w ?xf = Inr ?x1"
      using binop_vector_left [OF wb(3) _ wb(5) wxf, of S "(*)"] rxf by (simp add: comp_def)
    have lw: "length (data w) = D" using wb by (simp add: wf_tensor_def)
    have wx1: "wf_tensor ?x1" by (rule wf_concat_rows) (use rl lw in auto)
    have rx1: "rows (prod_list S) D (data ?x1) = map (\<lambda>r. map2 (*) (data w) (rms_row (eps l) r)) ?rs"
      by (simp add: rows_concat_map rl lw)
    have 2: "binop (+) ?x1 b = Inr \<lparr>shape = S @ [D],
        data = concat (map (\<lambda>r. map2 (+) (map2 (*) (data w) (rms_row (eps l) r)) (data b)) ?rs)\<rparr>"
      using binop_vector_right [OF wb(4) _ wb(6) wx1, of S "(+)"] rx1 by (simp add: comp_def)
    show ?thesis
      unfolding MLPSpeculatorLayerNorm_forward_def rms
      using True wb 1 2
      by (simp add: rbind_def attr_def normalizer_row_def affine_row_map2 cong: map_cong)
  qed
qed


subsection \<open>The normaliser\<close>

lemma sum_squares_nonneg: "0 \<le> sum_list (map (\<lambda>a. a\<^sup>2) (r :: real list))"
  by (rule sum_list_nonneg) auto

text \<open>
  Claim C8. For a tensor of shape (..., D) the normaliser returns, vector by vector along
  the last axis, \<open>x * rsqrt(mean(x\<^sup>2) + epsilon)\<close>, then multiplied by the learned scale and
  shifted by the learned shift exactly when the affine flag is set; it raises nothing and
  the result has the shape of the input.
\<close>

theorem C8_normalizer:
  assumes "shape x \<noteq> []" and "wf_tensor x" and "0 < eps l"
    and "elementwise_scale_and_shift l \<longrightarrow>
           (\<exists>w b. ln_weight l = Some w \<and> ln_bias l = Some b
                \<and> shape w = [last (shape x)] \<and> shape b = [last (shape x)]
                \<and> wf_tensor w \<and> wf_tensor b)"
  shows "\<exists>y. MLPSpeculatorLayerNorm_forward l x = Inr y
           \<and> shape y = shape x \<and> wf_tensor y
           \<and> last_rows y = map (normalizer_row l) (last_rows x)
           \<and> (\<forall>r \<in> set (last_rows x).
                 length r = last (shape x)
               \<and> 0 < sum_list (map (\<lambda>a. a\<^sup>2) r) / real (length r) + eps l
               \<and> normalizer_row l r =
                   (if elementwise_scale_and_shift l
                    then affine_row (data (the (ln_weight l))) (data (the (ln_bias l))) (rms_row (eps l) r)
                    else rms_row (eps l) r)
               \<and> length (normalizer_row l r) = length r)"
proof -
  define S where "S = butlast (shape x)"
  define D where "D = last (shape x)"
  have sx: "shape x = S @ [D]" using assms(1) by (simp add: S_def D_def)
  let ?rs = "rows (prod_list S) D (data x)"
  let ?y = "\<lparr>shape = S @ [D], data = concat (map (normalizer_row l) ?rs)\<rparr>"
  have lx: "length (data x) = prod_list S * D" using sx assms(2) by (simp add: wf_tensor_def)
  have rl: "\<And>r. r \<in> set ?rs \<Longrightarrow> length r = D"
    using lx by (intro rows_length [of "prod_list S" D "data x"]) simp_all
  have aff: "\<exists>w b. ln_weight l = Some w \<and> ln_bias l = Some b \<and> shape w = [D] \<and> shape b = [D]
                   \<and> wf_tensor w \<and> wf_tensor b" if "elementwise_scale_and_shift l"
    using assms(4) that by (simp add: D_def)
  have fw: "MLPSpeculatorLayerNorm_forward l x = Inr ?y"
    by (rule layernorm_forward_rows [OF sx assms(2) aff])
  have nl: "length (normalizer_row l r) = length r" if "r \<in> set ?rs" for r
  proof (cases "elementwise_scale_and_shift l")
    case False
    then show ?thesis by (simp add: normalizer_row_def)
  next
    case True
    from aff [OF True] obtain w b where wb: "ln_weight l = Some w" "ln_bias l = Some b"
      "shape w = [D]" "shape b = [D]" "wf_tensor w" "wf_tensor b" by blast
    then have "length (data w) = D" "length (data b) = D" by (simp_all add: wf_tensor_def)
    then show ?thesis using True wb rl [OF that]
      by (simp add: normalizer_row_def affine_row_def)
  qed
  have wy: "wf_tensor ?y" by (rule wf_concat_rows) (use rl nl in auto)
  have ry: "last_rows ?y = map (normalizer_row l) (last_rows x)"
    unfolding last_rows_snoc [OF sx]
    by (simp add: last_rows_def last_dim_def rows_concat_map rl nl)
  have pos: "0 < sum_list (map (\<lambda>a. a\<^sup>2) r) / real (length r) + eps l" for r
    using sum_squares_nonneg [of r] assms(3)
    by (intro add_nonneg_pos divide_nonneg_nonneg) simp_all
  have rows_x: "last_rows x = ?rs" by (rule last_rows_snoc [OF sx])
  have "shape ?y = shape x" using sx by simp
  moreover have "\<forall>r \<in> set (last_rows x).
                 length r = last (shape x)
               \<and> 0 < sum_list (map (\<lambda>a. a\<^sup>2) r) / real (length r) + eps l
               \<and> normalizer_row l r =
                   (if elementwise_scale_and_shift l
                    then affine_row (data (the (ln_weight l))) (data (the (ln_bias l))) (rms_row (eps l) r)
                    else rms_row (eps l) r)
               \<and> length (normalizer_row l r) = length r"
  proof
    fix r assume "r \<in> set (last_rows x)"
    then have r: "r \<in> set ?rs" by (simp only: rows_x)
    show "length r = last (shape x)
               \<and> 0 < sum_list (map (\<lambda>a. a\<^sup>2) r) / real (length r) + eps l
               \<and> normalizer_row l r =
                   (if elementwise_scale_and_shift l
                    then affine_row (data (the (ln_weight l))) (data (the (ln_bias l))) (rms_row (eps l) r)
                    else rms_row (eps l) r)
               \<and> length (normalizer_row l r) = length r"
      using rl [OF r] nl [OF r] pos [of r] by (simp add: normalizer_row_def D_def)
  qed
  ultimately show ?thesis
    using fw wy ry by blast
qed


theorem C8_normalizer_witness:
  "shape ex_hidden \<noteq> [] \<and> wf_tensor ex_hidden \<and> 0 < eps ex_ln \<and> elementwise_scale_and_shift ex_ln
   \<and> (\<exists>y. MLPSpeculatorLayerNorm_forward ex_ln ex_hidden = Inr y \<and> shape y = shape ex_hidden
          \<and> last_rows y = map (normalizer_row ex_ln) (last_rows ex_hidden))"
proof -
  have h1: "shape ex_hidden \<noteq> []" by (simp add: ex_hidden_def)
  have h2: "wf_tensor ex_hidden" by (simp add: ex_hidden_def wf_tensor_def)
  have h3: "0 < eps ex_ln" by (simp add: ex_ln_def)
  have h4: "elementwise_scale_and_shift ex_ln \<longrightarrow>
           (\<exists>w b. ln_weight ex_ln = Some w \<and> ln_bias ex_ln = Some b
                \<and> shape w = [last (shape ex_hidden)] \<and> shape b = [last (shape ex_hidden)]
                \<and> wf_tensor w \<and> wf_tensor b)"
    by (simp add: ex_ln_def ex_hidden_def wf_tensor_def)
  have h5: "elementwise_scale_and_shift ex_ln" by (simp add: ex_ln_def)
  from C8_normalizer [OF h1 h2 h3 h4] h1 h2 h3 h5 show ?thesis by blast
qed

subsection \<open>Selection, projection and soft-max along the last axis\<close>

lemma stable_topk_row_is_topk:
  assumes "k \<le> length r"
  shows "is_topk k r (stable_topk_row k r)"
proof -
  define f where "f = (\<lambda>j. - (r ! j))"
  define ss where "ss = sort_key f [0..<length r]"
  have ps: "stable_topk_row k r = take k ss" by (simp add: stable_topk_row_def ss_def f_def)
  have len: "length ss = length r" and st: "set ss = {0..<length r}" and di: "distinct ss"
    and so: "sorted (map f ss)"
    by (simp_all add: ss_def)
  have 1: "length (take k ss) = k" using assms len by simp
  have 2: "distinct (take k ss)" using di by simp
  have 3: "\<forall>p \<in> set (take k ss). p < length r"
    using st by (auto dest: in_set_takeD)
  have "sorted (map f (take k ss))" using so by (simp add: take_map [symmetric] sorted_wrt_take)
  then have 4: "sorted_wrt (\<lambda>p q. r ! q \<le> r ! p) (take k ss)"
    by (simp add: sorted_wrt_map f_def)
  have 5: "\<forall>j < length r. j \<notin> set (take k ss) \<longrightarrow> (\<forall>p \<in> set (take k ss). r ! j \<le> r ! p)"
  proof (intro allI impI ballI)
    fix j p assume j: "j < length r" "j \<notin> set (take k ss)" and p: "p \<in> set (take k ss)"
    have "j \<in> set ss" using j(1) st by simp
    then have "j \<in> set (take k ss) \<union> set (drop k ss)"
      by (simp only: set_append [symmetric] append_take_drop_id)
    then have jd: "j \<in> set (drop k ss)" using j(2) by blast
    have "sorted (map f (take k ss) @ map f (drop k ss))"
      using so by (simp add: map_append [symmetric])
    then have "f p \<le> f j" using p jd by (auto simp: sorted_append)
    then show "r ! j \<le> r ! p" by (simp add: f_def)
  qed
  show ?thesis unfolding is_topk_def ps using 1 2 3 4 5 by blast
qed

lemma linear_forward_props:
  assumes "linear_forward l x = Inr y"
  shows "\<exists>out inn. shape (lin_weight l) = [out, inn] \<and> shape x \<noteq> [] \<and> last (shape x) = inn
           \<and> shape y = butlast (shape x) @ [out]
           \<and> last_rows y = map (\<lambda>r. map (\<lambda>wr. dot wr r) (rows out inn (data (lin_weight l)))) (last_rows x)
           \<and> wf_tensor y"
proof -
  from assms obtain out inn where w: "shape (lin_weight l) = [out, inn]"
    unfolding linear_forward_def by (auto split: list.splits)
  let ?g = "\<lambda>r. map (\<lambda>wr. dot wr r) (rows out inn (data (lin_weight l)))"
  from assms w have x: "shape x \<noteq> []" "last (shape x) = inn"
    and y: "y = \<lparr>shape = butlast (shape x) @ [out], data = concat (map ?g (last_rows x))\<rparr>"
    unfolding linear_forward_def by (auto split: if_splits)
  have lr: "length (last_rows x) = prod_list (butlast (shape x))" by (simp add: last_rows_def)
  have gl: "\<And>r. length (?g r) = out" by simp
  have 1: "last_rows y = map ?g (last_rows x)"
    unfolding y by (simp add: last_rows_def [of "\<lparr>shape = _, data = _\<rparr>"] last_dim_def rows_concat_map lr)
  have 2: "wf_tensor y" unfolding y by (rule wf_concat_rows) (use lr in auto)
  show ?thesis using w x y 1 2 by simp
qed

lemma length_log_softmax_row [simp]: "length (log_softmax_row r) = length r"
  by (simp add: log_softmax_row_def)

lemma last_rows_log_softmax:
  assumes "wf_tensor t" "shape t \<noteq> []"
  shows "last_rows (log_softmax t) = map log_softmax_row (last_rows t)"
    and "\<forall>r \<in> set (last_rows t). length r = last (shape t)"
    and "wf_tensor (log_softmax t)"
proof -
  define S where "S = butlast (shape t)"
  define D where "D = last (shape t)"
  have st: "shape t = S @ [D]" using assms(2) by (simp add: S_def D_def)
  have lt: "length (data t) = prod_list S * D" using st assms(1) by (simp add: wf_tensor_def)
  have rt: "last_rows t = rows (prod_list S) D (data t)" by (rule last_rows_snoc [OF st])
  have rl: "\<And>r. r \<in> set (last_rows t) \<Longrightarrow> length r = D"
    unfolding rt using lt by (intro rows_length [of "prod_list S" D "data t"]) simp_all
  have sl: "shape (log_softmax t) = S @ [D]" by (simp add: log_softmax_def st)
  show "last_rows (log_softmax t) = map log_softmax_row (last_rows t)"
  proof -
    have "rows (prod_list S) D (concat (map log_softmax_row (last_rows t)))
        = map log_softmax_row (last_rows t)"
      by (rule rows_concat_map) (simp_all add: rt rl [unfolded rt])
    then show ?thesis
      unfolding last_rows_snoc [OF sl] by (simp add: log_softmax_def)
  qed
  show "\<forall>r \<in> set (last_rows t). length r = last (shape t)"
    using rl by (simp add: D_def)
  have "wf_tensor \<lparr>shape = S @ [D], data = concat (map log_softmax_row (last_rows t))\<rparr>"
    by (rule wf_concat_rows) (use rl in \<open>auto simp: rt\<close>)
  then show "wf_tensor (log_softmax t)" by (simp add: log_softmax_def st)
qed

lemma first_max_props:
  assumes "bi < length ys" "bv = ys ! bi" "\<forall>i < length ys. ys ! i \<le> bv" "j = length ys"
  shows "first_max bv bi j xs < length (ys @ xs)
       \<and> (\<forall>i < length (ys @ xs). (ys @ xs) ! i \<le> (ys @ xs) ! first_max bv bi j xs)"
  using assms
proof (induction xs arbitrary: ys bv bi j)
  case Nil
  then show ?case by simp
next
  case (Cons x xs)
  show ?case
  proof (cases "bv < x")
    case True
    have "first_max x j (Suc j) xs < length ((ys @ [x]) @ xs)
       \<and> (\<forall>i < length ((ys @ [x]) @ xs). ((ys @ [x]) @ xs) ! i \<le> ((ys @ [x]) @ xs) ! first_max x j (Suc j) xs)"
    proof (rule Cons.IH)
      show "j < length (ys @ [x])" using Cons.prems by simp
      show "x = (ys @ [x]) ! j" using Cons.prems by simp
      show "\<forall>i<length (ys @ [x]). (ys @ [x]) ! i \<le> x"
        using Cons.prems True by (auto simp: nth_append less_Suc_eq)
      show "Suc j = length (ys @ [x])" using Cons.prems by simp
    qed
    then show ?thesis using True by simp
  next
    case False
    have "first_max bv bi (Suc j) xs < length ((ys @ [x]) @ xs)
       \<and> (\<forall>i < length ((ys @ [x]) @ xs). ((ys @ [x]) @ xs) ! i \<le> ((ys @ [x]) @ xs) ! first_max bv bi (Suc j) xs)"
    proof (rule Cons.IH)
      show "bi < length (ys @ [x])" using Cons.prems by simp
      show "bv = (ys @ [x]) ! bi" using Cons.prems by (simp add: nth_append)
      show "\<forall>i<length (ys @ [x]). (ys @ [x]) ! i \<le> bv"
        using Cons.prems False by (auto simp: nth_append less_Suc_eq)
      show "Suc j = length (ys @ [x])" using Cons.prems by simp
    qed
    then show ?thesis using False by simp
  qed
qed

lemma argmax_row_max:
  assumes "r \<noteq> []"
  shows "argmax_row r < length r \<and> (\<forall>j < length r. r ! j \<le> r ! argmax_row r)"
proof -
  from assms obtain x xs where r: "r = x # xs" by (cases r) auto
  have "first_max x 0 1 xs < length ([x] @ xs)
       \<and> (\<forall>i < length ([x] @ xs). ([x] @ xs) ! i \<le> ([x] @ xs) ! first_max x 0 1 xs)"
    by (rule first_max_props) simp_all
  then show ?thesis by (simp add: r argmax_row_def)
qed


lemma reshape_infer_data: "reshape_infer rest t = Inr t' \<Longrightarrow> data t' = data t"
  by (auto simp: reshape_infer_def Let_def split: if_splits)


subsection \<open>The small model, run\<close>

lemma replicate_2: "replicate 2 x = [x, x]"
  by (simp add: numeral_2_eq_2)

lemmas ex_eval = replicate_2 ex_model_def ex_ln_def ex_hidden_def ex_ids_def
  MLPSpeculatorModel_forward_def rescale_input_def size_dim_def nth_res_def rbind_def unsqueeze_def
  empty_tensor_def head_step_def mix_state_def predict_def branch_def embedding_forward_def
  linear_forward_def MLPSpeculatorLayerNorm_forward_def binop_def map_tensor_def mean_last_keepdim_def
  last_rows_def rows_def last_dim_def pad_shape_def attr_def log_softmax_def log_softmax_row_def
  topk_def stable_topk_def stable_topk_row_def setitem_col_def expand_dim2_def reshape_infer_def dot_def upt_rec
  Let_def sort_key_def GELU_def exp_minus

lemma ex_head_step:
  "head_step stable_topk (ex_model [1, 1]) 1 0 (ex_hidden, \<lparr>shape = [1, 1], data = [0]\<rparr>, empty_tensor 0 [1, 2, 2])
     = Inr (\<lparr>shape = [1, 1, 1], data = [0]\<rparr>, \<lparr>shape = [1, 1], data = [0]\<rparr>,
            \<lparr>shape = [1, 2, 2], data = [1 / 2, 1 / 2, 0, 0]\<rparr>)"
  by (simp add: ex_eval)

lemma ex_forward:
  "MLPSpeculatorModel_forward stable_topk (ex_model [1, 1]) 0 ex_hidden ex_ids
     = Inr \<lparr>shape = [1, 2, 2], data = [1 / 2, 1 / 2, 1 / 2, 1 / 2]\<rparr>"
  by (simp add: ex_eval)

text \<open>
  Claim C3. The head wrapper always computes the logits with the LM head first. With more
  than 128 input rows it returns the logits and no speculation, without calling the
  speculator. With at most 128 rows (128 included) it takes, row by row, the position of
  the largest logit as the current token, calls the speculator on the input and these ids,
  and returns the logits with what the speculator returned; a failure of the speculator is
  passed on.
\<close>

theorem C3_head_wrapper:
  "(\<forall>e. linear_forward (lm_head self) input = Inl e \<longrightarrow> MLPSpeculatorHead_forward sel self u input = Inl e)
   \<and> (\<forall>logits. linear_forward (lm_head self) input = Inr logits \<longrightarrow>
        (128 < hd (shape input) \<longrightarrow> MLPSpeculatorHead_forward sel self u input = Inr (logits, None))
      \<and> (hd (shape input) \<le> 128 \<longrightarrow>
           (\<forall>e. argmax logits = Inl e \<longrightarrow> MLPSpeculatorHead_forward sel self u input = Inl e)
         \<and> (\<forall>ids. argmax logits = Inr ids \<longrightarrow>
               data ids = map (\<lambda>r. int (argmax_row r)) (last_rows logits)
             \<and> (\<forall>r \<in> set (last_rows logits).
                   argmax_row r < length r \<and> (\<forall>j < length r. r ! j \<le> r ! argmax_row r))
             \<and> MLPSpeculatorHead_forward sel self u input =
                 (case MLPSpeculatorModel_forward sel (mlp_speculator self) u input ids of
                    Inl e \<Rightarrow> Inl e
                  | Inr speculative \<Rightarrow> Inr (logits, Some speculative)))))"
proof (intro conjI allI impI)
  fix e assume "linear_forward (lm_head self) input = Inl e"
  then show "MLPSpeculatorHead_forward sel self u input = Inl e"
    by (simp add: MLPSpeculatorHead_forward_def rbind_def)
next
  fix logits assume lg: "linear_forward (lm_head self) input = Inr logits"
  from linear_forward_props [OF lg] obtain out where
    ne: "shape input \<noteq> []" and sl: "shape logits = butlast (shape input) @ [out]"
    and wl: "wf_tensor logits" by blast
  have sz: "size_dim input 0 = Inr (hd (shape input))"
    using ne by (simp add: size_dim_def nth_res_def hd_conv_nth)
  have fw: "MLPSpeculatorHead_forward sel self u input =
      (if 128 < hd (shape input) then Inr (logits, None)
       else rbind (argmax logits) (\<lambda>input_ids.
            rbind (MLPSpeculatorModel_forward sel (mlp_speculator self) u input input_ids) (\<lambda>speculative_logits.
            Inr (logits, Some speculative_logits))))"
    using lg sz by (simp add: MLPSpeculatorHead_forward_def rbind_def)
  {
    assume "128 < hd (shape input)"
    then show "MLPSpeculatorHead_forward sel self u input = Inr (logits, None)" using fw by simp
  }
  {
    fix e assume "hd (shape input) \<le> 128" "argmax logits = Inl e"
    then show "MLPSpeculatorHead_forward sel self u input = Inl e" using fw by (simp add: rbind_def)
  }
  {
    fix ids assume le: "hd (shape input) \<le> 128" and am: "argmax logits = Inr ids"
    have lne: "shape logits \<noteq> []" and la: "last (shape logits) = out" using sl by simp_all
    from am lne have o0: "out \<noteq> 0" and
      ids: "data ids = map (\<lambda>r. int (argmax_row r)) (last_rows logits)"
      unfolding argmax_def using la by (auto split: if_splits)
    show "data ids = map (\<lambda>r. int (argmax_row r)) (last_rows logits)" by (rule ids)
    show "MLPSpeculatorHead_forward sel self u input =
                 (case MLPSpeculatorModel_forward sel (mlp_speculator self) u input ids of
                    Inl e \<Rightarrow> Inl e
                  | Inr speculative \<Rightarrow> Inr (logits, Some speculative))"
      using fw le am by (simp add: rbind_def split: sum.splits)
    show "\<forall>r \<in> set (last_rows logits).
            argmax_row r < length r \<and> (\<forall>j < length r. r ! j \<le> r ! argmax_row r)"
    proof
      fix r assume "r \<in> set (last_rows logits)"
      then have "length r = out" using last_rows_log_softmax(2) [OF wl lne] la by simp
      then have "r \<noteq> []" using o0 by auto
      then show "argmax_row r < length r \<and> (\<forall>j < length r. r ! j \<le> r ! argmax_row r)"
        by (rule argmax_row_max)
    qed
  }
qed


lemma ex_wrapper_logits:
  "linear_forward (lm_head ex_wrapper) ex_hidden = Inr \<lparr>shape = [1, 2], data = [0, 0]\<rparr>"
  by (simp add: ex_wrapper_def ex_eval)

lemma ex_wrapper_argmax: "argmax \<lparr>shape = [1, 2], data = [0, 0]\<rparr> = Inr ex_ids"
  by (simp add: argmax_def argmax_row_def ex_eval)

theorem C3_head_wrapper_witness:
  "linear_forward (lm_head ex_wrapper) ex_scalar = Inl (RuntimeError ''mat1 and mat2 shapes cannot be multiplied'')
   \<and> MLPSpeculatorHead_forward stable_topk ex_wrapper 0 ex_scalar = Inl (RuntimeError ''mat1 and mat2 shapes cannot be multiplied'')
   \<and> 128 < hd (shape ex_big)
   \<and> (\<exists>logits. linear_forward (lm_head ex_wrapper) ex_big = Inr logits
          \<and> MLPSpeculatorHead_forward stable_topk ex_wrapper 0 ex_big = Inr (logits, None))
   \<and> hd (shape ex_hidden) \<le> 128
   \<and> MLPSpeculatorHead_forward stable_topk ex_wrapper 0 ex_hidden
        = Inr (\<lparr>shape = [1, 2], data = [0, 0]\<rparr>, Some \<lparr>shape = [1, 2, 2], data = [1 / 2, 1 / 2, 1 / 2, 1 / 2]\<rparr>)
   \<and> (\<exists>logits e. linear_forward (lm_head ex_wrapper_no_vocab) ex_hidden = Inr logits
          \<and> argmax logits = Inl e
          \<and> MLPSpeculatorHead_forward stable_topk ex_wrapper_no_vocab 0 ex_hidden = Inl e)"
proof -
  have a: "linear_forward (lm_head ex_wrapper) ex_scalar
      = Inl (RuntimeError ''mat1 and mat2 shapes cannot be multiplied'')"
    by (simp add: ex_wrapper_def ex_scalar_def linear_forward_def)
  have b: "128 < hd (shape ex_big)" by (simp add: ex_big_def)
  obtain lb where lb: "linear_forward (lm_head ex_wrapper) ex_big = Inr lb"
    by (simp add: ex_wrapper_def ex_big_def linear_forward_def)
  have c: "hd (shape ex_hidden) \<le> 128" by (simp add: ex_hidden_def)
  have sp: "mlp_speculator ex_wrapper = ex_model [1, 1]" by (simp add: ex_wrapper_def)
  obtain ln where ln: "linear_forward (lm_head ex_wrapper_no_vocab) ex_hidden = Inr ln"
    and ln_shape: "shape ln = [1, 0]"
    by (simp add: ex_wrapper_no_vocab_def ex_hidden_def linear_forward_def)
  obtain e where e: "argmax ln = Inl e" using ln_shape by (simp add: argmax_def)
  have d: "hd (shape ex_hidden) \<le> 128" by (simp add: ex_hidden_def)
  note T = C3_head_wrapper [of ex_wrapper _ stable_topk 0]
  note T0 = C3_head_wrapper [of ex_wrapper_no_vocab ex_hidden stable_topk 0]
  have 1: "MLPSpeculatorHead_forward stable_topk ex_wrapper 0 ex_scalar
      = Inl (RuntimeError ''mat1 and mat2 shapes cannot be multiplied'')"
    using T [of ex_scalar, THEN conjunct1, rule_format, OF a] .
  have 2: "MLPSpeculatorHead_forward stable_topk ex_wrapper 0 ex_big = Inr (lb, None)"
    using T [of ex_big, THEN conjunct2, rule_format, OF lb, THEN conjunct1, rule_format, OF b] .
  have 3: "MLPSpeculatorHead_forward stable_topk ex_wrapper 0 ex_hidden
        = Inr (\<lparr>shape = [1, 2], data = [0, 0]\<rparr>, Some \<lparr>shape = [1, 2, 2], data = [1 / 2, 1 / 2, 1 / 2, 1 / 2]\<rparr>)"
    using T [of ex_hidden, THEN conjunct2, rule_format, OF ex_wrapper_logits, THEN conjunct2,
        rule_format, OF c, THEN conjunct2, rule_format, OF ex_wrapper_argmax] ex_forward
    by (simp add: sp)
  have 4: "MLPSpeculatorHead_forward stable_topk ex_wrapper_no_vocab 0 ex_hidden = Inl e"
    using T0 [THEN conjunct2, rule_format, OF ln, THEN conjunct2, rule_format, OF d,
        THEN conjunct1, rule_format, OF e] .
  show ?thesis using a b c lb ln e 1 2 3 4 by blast
qed

subsection \<open>The loop over the heads\<close>

lemma run_heads_snoc: "run_heads sel m b (is @ [i]) s = rbind (run_heads sel m b is s) (head_step sel m b i)"
  by (induction "is" arbitrary: s) (simp_all add: rbind_def split: sum.splits)

lemma run_heads_trace:
  assumes "run_heads sel m b [0..<n] s0 = Inr sn"
  shows "\<exists>tr. length tr = Suc n \<and> tr ! 0 = s0 \<and> tr ! n = sn
            \<and> (\<forall>i < n. head_step sel m b i (tr ! i) = Inr (tr ! Suc i))"
  using assms
proof (induction n arbitrary: sn)
  case 0
  then show ?case by (intro exI [of _ "[s0]"]) simp
next
  case (Suc n)
  from Suc.prems obtain s' where s': "run_heads sel m b [0..<n] s0 = Inr s'"
    and st: "head_step sel m b n s' = Inr sn"
    by (auto simp: run_heads_snoc rbind_Inr_iff)
  from Suc.IH [OF s'] obtain tr where tr: "length tr = Suc n" "tr ! 0 = s0" "tr ! n = s'"
    "\<forall>i < n. head_step sel m b i (tr ! i) = Inr (tr ! Suc i)" by blast
  have "\<forall>i < Suc n. head_step sel m b i ((tr @ [sn]) ! i) = Inr ((tr @ [sn]) ! Suc i)"
    using tr st by (auto simp: nth_append less_Suc_eq)
  then show ?case using tr
    by (intro exI [of _ "tr @ [sn]"]) (simp add: nth_append)
qed

lemma SQRT2_sqrt: "SQRT2 = sqrt 2"
  by (simp add: SQRT2_def powr_half_sqrt)

lemma head_step_recurrence:
  assumes "head_step sel m b i (state, ind, all_probs) = Inr (state', ind', all_probs')"
  shows "\<exists>z ps mixed normed fed logits preds k a b' d.
           i < length (emb m) \<and> embedding_forward (emb m ! i) ind = Inr z
         \<and> i < length (proj m) \<and> linear_forward (proj m ! i) state = Inr ps
         \<and> binop (+) (map_tensor (\<lambda>v. v * state_weight m) ps)
              (map_tensor (\<lambda>v. v * (emb_weight m * sqrt (real (inner_dim m) / 2))) z) = Inr mixed
         \<and> i < length (ln m) \<and> MLPSpeculatorLayerNorm_forward (ln m ! i) mixed = Inr normed
         \<and> fed = map_tensor (activation m) normed
         \<and> i < length (head m) \<and> linear_forward (head m ! i) fed = Inr logits
         \<and> i < length (top_k_tokens_per_head m) \<and> k = top_k_tokens_per_head m ! i
         \<and> topk sel k (log_softmax logits) = Inr preds
         \<and> setitem_col all_probs i (map_tensor exp (log_softmax logits)) = Inr all_probs'
         \<and> shape fed = [a, b', d]
         \<and> state' = \<lparr>shape = [prod_list [a, b', k, d] div prod_list [b, d], b, d],
                      data = expand_to [a, b', 1, d] [a, b', k, d] (data fed)\<rparr>
         \<and> ind' = \<lparr>shape = [prod_list (shape preds) div prod_list [b], b], data = data preds\<rparr>"
proof -
  from assms obtain fed probs preds where
    fed: "mix_state m i state ind = Inr fed" and
    pr: "predict sel m i fed = Inr (probs, preds)" and
    st: "setitem_col all_probs i (map_tensor exp probs) = Inr all_probs'" and
    br: "branch m b i fed preds = Inr (state', ind')"
    unfolding head_step_def by (auto simp: rbind_Inr_iff)
  from fed obtain z ps mixed normed where
    1: "i < length (emb m)" "embedding_forward (emb m ! i) ind = Inr z"
       "i < length (proj m)" "linear_forward (proj m ! i) state = Inr ps"
       "binop (+) (map_tensor (\<lambda>v. v * state_weight m) ps)
              (map_tensor (\<lambda>v. v * (emb_weight m * sqrt (real (inner_dim m) / 2))) z) = Inr mixed"
       "i < length (ln m)" "MLPSpeculatorLayerNorm_forward (ln m ! i) mixed = Inr normed"
       "fed = map_tensor (activation m) normed"
    unfolding mix_state_def Let_def by (auto simp: rbind_Inr_iff nth_res_def split: if_splits)
  define k where "k = top_k_tokens_per_head m ! i"
  from pr obtain logits where
    2: "i < length (head m)" "linear_forward (head m ! i) fed = Inr logits"
       "i < length (top_k_tokens_per_head m)"
    and probs: "probs = log_softmax logits"
    and tk: "topk sel k (log_softmax logits) = Inr preds"
    unfolding predict_def Let_def k_def
    by (auto simp: rbind_Inr_iff nth_res_def split: if_splits)
  from br obtain s1 s2 dd where
    u: "unsqueeze 2 fed = Inr s1" and e: "expand_dim2 k s1 = Inr s2"
    and dd: "size_dim s2 3 = Inr dd"
    and r: "reshape_infer [b, dd] s2 = Inr state'"
    and ri: "reshape_infer [b] preds = Inr ind'"
    unfolding branch_def k_def using 2(3) by (auto simp: rbind_Inr_iff nth_res_def)
  from u have s1: "shape s1 = take 2 (shape fed) @ [1] @ drop 2 (shape fed)" "data s1 = data fed"
    "2 \<le> length (shape fed)"
    by (auto simp: unsqueeze_def split: if_splits)
  from e obtain a b' c d where s1': "shape s1 = [a, b', c, d]"
    and s2: "data s2 = expand_to [a, b', c, d] [a, b', k, d] (data s1)"
    and s2s: "shape s2 = [a, b', k, d]"
    unfolding expand_dim2_def by (auto split: list.splits if_splits)
  from s1(1,3) s1' have sf: "shape fed = [a, b', d]" and c: "c = 1"
    by (cases "shape fed"; cases "tl (shape fed)"; cases "tl (tl (shape fed))"; auto)+
  from dd s2s have dd': "dd = d" by (simp add: size_dim_def nth_res_def)
  have s': "state' = \<lparr>shape = [prod_list [a, b', k, d] div prod_list [b, d], b, d],
                      data = expand_to [a, b', 1, d] [a, b', k, d] (data fed)\<rparr>"
    using r s2 s2s s1(2) c dd'
    by (auto simp: reshape_infer_def Let_def split: if_splits)
  have i': "ind' = \<lparr>shape = [prod_list (shape preds) div prod_list [b], b], data = data preds\<rparr>"
    using ri by (auto simp: reshape_infer_def Let_def split: if_splits)
  from 1 2 k_def tk st [unfolded probs] sf s' i' show ?thesis by blast
qed

text \<open>
  Claim C1. In every forward call that returns, the loop runs the heads \<open>0..N-1\<close> in turn,
  each on the state and candidate ids the step before left. Step 0 runs on the input hidden
  state (on \<open>ln0(hidden) / sqrt 2\<close> when \<open>scale_input\<close> is set) and on the token ids with a
  leading axis of size 1, with \<open>b\<close> the size of the first axis of that state. At step \<open>i\<close>
  the state given to the output projection is
  \<open>activation(ln[i](proj[i](state) * state_weight + z))\<close> with
  \<open>z = emb[i](ind) * (emb_weight * sqrt(inner_dim / 2))\<close>; the state handed on is this state,
  copied once per kept candidate and laid out as \<open>(-1, b, d)\<close>; the ids handed on are the
  top-k positions of the log-soft-max of the projected state, laid out as \<open>(-1, b)\<close>; the
  exponentials of that log-soft-max are written to column \<open>i\<close> of the output. The
  constructor sets the activation to GELU.
\<close>

theorem C1_recurrence:
  assumes "MLPSpeculatorModel_forward sel m u hidden_states input_ids = Inr out"
  shows "(\<exists>state0 b tr.
            (\<not> scale_input m \<longrightarrow> state0 = hidden_states)
          \<and> (scale_input m \<longrightarrow>
               (\<exists>l y. ln0 m = Some l \<and> MLPSpeculatorLayerNorm_forward l hidden_states = Inr y
                    \<and> state0 = map_tensor (\<lambda>v. v / sqrt 2) y))
          \<and> shape state0 \<noteq> [] \<and> b = hd (shape state0)
          \<and> length tr = Suc (n_predict m)
          \<and> tr ! 0 = (state0, \<lparr>shape = 1 # shape input_ids, data = data input_ids\<rparr>,
                       empty_tensor u [b, n_predict m, vsize m])
          \<and> snd (snd (tr ! n_predict m)) = out
          \<and> (\<forall>i < n_predict m.
                \<exists>state ind ap z ps mixed normed fed logits preds ap' k a b' d.
                  tr ! i = (state, ind, ap)
                \<and> embedding_forward (emb m ! i) ind = Inr z
                \<and> linear_forward (proj m ! i) state = Inr ps
                \<and> binop (+) (map_tensor (\<lambda>v. v * state_weight m) ps)
                     (map_tensor (\<lambda>v. v * (emb_weight m * sqrt (real (inner_dim m) / 2))) z) = Inr mixed
                \<and> MLPSpeculatorLayerNorm_forward (ln m ! i) mixed = Inr normed
                \<and> fed = map_tensor (activation m) normed
                \<and> linear_forward (head m ! i) fed = Inr logits
                \<and> k = top_k_tokens_per_head m ! i
                \<and> topk sel k (log_softmax logits) = Inr preds
                \<and> setitem_col ap i (map_tensor exp (log_softmax logits)) = Inr ap'
                \<and> shape fed = [a, b', d]
                \<and> tr ! Suc i =
                    (\<lparr>shape = [prod_list [a, b', k, d] div prod_list [b, d], b, d],
                      data = expand_to [a, b', 1, d] [a, b', k, d] (data fed)\<rparr>,
                     \<lparr>shape = [prod_list (shape preds) div prod_list [b], b], data = data preds\<rparr>,
                     ap')))
       \<and> (\<forall>cfg n prefix w oid oid'.
             MLPSpeculatorModel_init cfg n prefix w oid = Inr (m, oid') \<longrightarrow> activation m = GELU)"
proof
  from assms obtain state0 b ind0 sN where
    r: "rescale_input m hidden_states = Inr state0" and
    b: "size_dim state0 0 = Inr b" and
    i0: "unsqueeze 0 input_ids = Inr ind0" and
    run: "run_heads sel m b [0..<n_predict m] (state0, ind0, empty_tensor u [b, n_predict m, vsize m]) = Inr sN"
    and out: "snd (snd sN) = out"
    unfolding MLPSpeculatorModel_forward_def Let_def
    by (auto simp: rbind_Inr_iff split: if_splits)
  have ind0: "ind0 = \<lparr>shape = 1 # shape input_ids, data = data input_ids\<rparr>"
    using i0 by (auto simp: unsqueeze_def)
  have ns: "\<not> scale_input m \<longrightarrow> state0 = hidden_states"
    using r by (auto simp: rescale_input_def)
  have sc: "scale_input m \<longrightarrow>
               (\<exists>l y. ln0 m = Some l \<and> MLPSpeculatorLayerNorm_forward l hidden_states = Inr y
                    \<and> state0 = map_tensor (\<lambda>v. v / sqrt 2) y)"
    using r by (auto simp: rescale_input_def rbind_Inr_iff attr_def SQRT2_sqrt split: option.splits)
  have bs: "shape state0 \<noteq> []" "b = hd (shape state0)"
    using b by (auto simp: size_dim_def nth_res_def hd_conv_nth split: if_splits)
  from run_heads_trace [OF run] obtain tr where tr: "length tr = Suc (n_predict m)"
    "tr ! 0 = (state0, ind0, empty_tensor u [b, n_predict m, vsize m])" "tr ! n_predict m = sN"
    "\<forall>i < n_predict m. head_step sel m b i (tr ! i) = Inr (tr ! Suc i)" by blast
  have steps: "\<forall>i < n_predict m.
                \<exists>state ind ap z ps mixed normed fed logits preds ap' k a b' d.
                  tr ! i = (state, ind, ap)
                \<and> embedding_forward (emb m ! i) ind = Inr z
                \<and> linear_forward (proj m ! i) state = Inr ps
                \<and> binop (+) (map_tensor (\<lambda>v. v * state_weight m) ps)
                     (map_tensor (\<lambda>v. v * (emb_weight m * sqrt (real (inner_dim m) / 2))) z) = Inr mixed
                \<and> MLPSpeculatorLayerNorm_forward (ln m ! i) mixed = Inr normed
                \<and> fed = map_tensor (activation m) normed
                \<and> linear_forward (head m ! i) fed = Inr logits
                \<and> k = top_k_tokens_per_head m ! i
                \<and> topk sel k (log_softmax logits) = Inr preds
                \<and> setitem_col ap i (map_tensor exp (log_softmax logits)) = Inr ap'
                \<and> shape fed = [a, b', d]
                \<and> tr ! Suc i =
                    (\<lparr>shape = [prod_list [a, b', k, d] div prod_list [b, d], b, d],
                      data = expand_to [a, b', 1, d] [a, b', k, d] (data fed)\<rparr>,
                     \<lparr>shape = [prod_list (shape preds) div prod_list [b], b], data = data preds\<rparr>,
                     ap')"
  proof (intro allI impI)
    fix i assume "i < n_predict m"
    with tr(4) have hs: "head_step sel m b i (tr ! i) = Inr (tr ! Suc i)" by simp
    obtain state ind ap where ti: "tr ! i = (state, ind, ap)" by (cases "tr ! i") auto
    obtain state' ind' ap' where tsi: "tr ! Suc i = (state', ind', ap')" by (cases "tr ! Suc i") auto
    from head_step_recurrence [OF hs [unfolded ti tsi]]
    obtain z ps mixed normed fed logits preds k a b' d where
      h: "embedding_forward (emb m ! i) ind = Inr z"
         "linear_forward (proj m ! i) state = Inr ps"
         "binop (+) (map_tensor (\<lambda>v. v * state_weight m) ps)
              (map_tensor (\<lambda>v. v * (emb_weight m * sqrt (real (inner_dim m) / 2))) z) = Inr mixed"
         "MLPSpeculatorLayerNorm_forward (ln m ! i) mixed = Inr normed"
         "fed = map_tensor (activation m) normed"
         "linear_forward (head m ! i) fed = Inr logits"
         "k = top_k_tokens_per_head m ! i"
         "topk sel k (log_softmax logits) = Inr preds"
         "shape fed = [a, b', d]"
      and sa: "setitem_col ap i (map_tensor exp (log_softmax logits)) = Inr ap'"
      and s': "state' = \<lparr>shape = [prod_list [a, b', k, d] div prod_list [b, d], b, d],
                      data = expand_to [a, b', 1, d] [a, b', k, d] (data fed)\<rparr>"
      and i': "ind' = \<lparr>shape = [prod_list (shape preds) div prod_list [b], b], data = data preds\<rparr>"
      by blast
    have nx: "tr ! Suc i =
                    (\<lparr>shape = [prod_list [a, b', k, d] div prod_list [b, d], b, d],
                      data = expand_to [a, b', 1, d] [a, b', k, d] (data fed)\<rparr>,
                     \<lparr>shape = [prod_list (shape preds) div prod_list [b], b], data = data preds\<rparr>,
                     ap')"
      unfolding tsi s' i' by simp
    from ti h nx sa
    show "\<exists>state ind ap z ps mixed normed fed logits preds ap' k a b' d.
                  tr ! i = (state, ind, ap)
                \<and> embedding_forward (emb m ! i) ind = Inr z
                \<and> linear_forward (proj m ! i) state = Inr ps
                \<and> binop (+) (map_tensor (\<lambda>v. v * state_weight m) ps)
                     (map_tensor (\<lambda>v. v * (emb_weight m * sqrt (real (inner_dim m) / 2))) z) = Inr mixed
                \<and> MLPSpeculatorLayerNorm_forward (ln m ! i) mixed = Inr normed
                \<and> fed = map_tensor (activation m) normed
                \<and> linear_forward (head m ! i) fed = Inr logits
                \<and> k = top_k_tokens_per_head m ! i
                \<and> topk sel k (log_softmax logits) = Inr preds
                \<and> setitem_col ap i (map_tensor exp (log_softmax logits)) = Inr ap'
                \<and> shape fed = [a, b', d]
                \<and> tr ! Suc i =
                    (\<lparr>shape = [prod_list [a, b', k, d] div prod_list [b, d], b, d],
                      data = expand_to [a, b', 1, d] [a, b', k, d] (data fed)\<rparr>,
                     \<lparr>shape = [prod_list (shape preds) div prod_list [b], b], data = data preds\<rparr>,
                     ap')"
      by blast
  qed
  show "\<exists>state0 b tr.
            (\<not> scale_input m \<longrightarrow> state0 = hidden_states)
          \<and> (scale_input m \<longrightarrow>
               (\<exists>l y. ln0 m = Some l \<and> MLPSpeculatorLayerNorm_forward l hidden_states = Inr y
                    \<and> state0 = map_tensor (\<lambda>v. v / sqrt 2) y))
          \<and> shape state0 \<noteq> [] \<and> b = hd (shape state0)
          \<and> length tr = Suc (n_predict m)
          \<and> tr ! 0 = (state0, \<lparr>shape = 1 # shape input_ids, data = data input_ids\<rparr>,
                       empty_tensor u [b, n_predict m, vsize m])
          \<and> snd (snd (tr ! n_predict m)) = out
          \<and> (\<forall>i < n_predict m.
                \<exists>state ind ap z ps mixed normed fed logits preds ap' k a b' d.
                  tr ! i = (state, ind, ap)
                \<and> embedding_forward (emb m ! i) ind = Inr z
                \<and> linear_forward (proj m ! i) state = Inr ps
                \<and> binop (+) (map_tensor (\<lambda>v. v * state_weight m) ps)
                     (map_tensor (\<lambda>v. v * (emb_weight m * sqrt (real (inner_dim m) / 2))) z) = Inr mixed
                \<and> MLPSpeculatorLayerNorm_forward (ln m ! i) mixed = Inr normed
                \<and> fed = map_tensor (activation m) normed
                \<and> linear_forward (head m ! i) fed = Inr logits
                \<and> k = top_k_tokens_per_head m ! i
                \<and> topk sel k (log_softmax logits) = Inr preds
                \<and> setitem_col ap i (map_tensor exp (log_softmax logits)) = Inr ap'
                \<and> shape fed = [a, b', d]
                \<and> tr ! Suc i =
                    (\<lparr>shape = [prod_list [a, b', k, d] div prod_list [b, d], b, d],
                      data = expand_to [a, b', 1, d] [a, b', k, d] (data fed)\<rparr>,
                     \<lparr>shape = [prod_list (shape preds) div prod_list [b], b], data = data preds\<rparr>,
                     ap'))"
    using ns sc bs tr(1) tr(2) [unfolded ind0] tr(3) out steps
    by (intro exI [of _ state0] exI [of _ b] exI [of _ tr]) simp
  show "\<forall>cfg n prefix w oid oid'.
             MLPSpeculatorModel_init cfg n prefix w oid = Inr (m, oid') \<longrightarrow> activation m = GELU"
    using init_fields(11) by blast
qed

theorem C1_recurrence_witness:
  "MLPSpeculatorModel_forward stable_topk (ex_model [1, 1]) 0 ex_hidden ex_ids
     = Inr \<lparr>shape = [1, 2, 2], data = [1 / 2, 1 / 2, 1 / 2, 1 / 2]\<rparr>
   \<and> MLPSpeculatorModel_init (ex_config True False) 2 ''speculator'' ex_weights 0 = Inr (ex_model [1, 1], 5)
   \<and> activation (ex_model [1, 1]) = GELU
   \<and> (\<exists>tr :: (real tensor \<times> int tensor \<times> real tensor) list.
         length tr = Suc (n_predict (ex_model [1, 1]))
         \<and> tr ! 0 = (ex_hidden, \<lparr>shape = 1 # shape ex_ids, data = data ex_ids\<rparr>,
                      empty_tensor 0 [hd (shape ex_hidden), n_predict (ex_model [1, 1]), vsize (ex_model [1, 1])])
         \<and> snd (snd (tr ! n_predict (ex_model [1, 1])))
             = \<lparr>shape = [1, 2, 2], data = [1 / 2, 1 / 2, 1 / 2, 1 / 2]\<rparr>)"
proof -
  note T = C1_recurrence [OF ex_forward]
  have a: "activation (ex_model [1, 1]) = GELU"
    using T [THEN conjunct2] ex_init_tied by blast
  from T [THEN conjunct1]
  obtain state0 :: "real tensor" and b :: nat
    and tr :: "(real tensor \<times> int tensor \<times> real tensor) list" where
    s: "\<not> scale_input (ex_model [1, 1]) \<longrightarrow> state0 = ex_hidden" and
    b: "b = hd (shape state0)" and
    l: "length tr = Suc (n_predict (ex_model [1, 1]))" and
    z: "tr ! 0 = (state0, \<lparr>shape = 1 # shape ex_ids, data = data ex_ids\<rparr>,
                  empty_tensor 0 [b, n_predict (ex_model [1, 1]), vsize (ex_model [1, 1])])" and
    e: "snd (snd (tr ! n_predict (ex_model [1, 1])))
       = \<lparr>shape = [1, 2, 2], data = [1 / 2, 1 / 2, 1 / 2, 1 / 2]\<rparr>"
    apply (elim exE conjE)
    subgoal premises p for s0 b tr
      by (rule p(1) [OF p(2) p(5) p(6) p(7) p(8)])
    done
  have s0: "state0 = ex_hidden" using s by (simp add: ex_model_def)
  have c: "\<exists>tr :: (real tensor \<times> int tensor \<times> real tensor) list.
         length tr = Suc (n_predict (ex_model [1, 1]))
         \<and> tr ! 0 = (ex_hidden, \<lparr>shape = 1 # shape ex_ids, data = data ex_ids\<rparr>,
                      empty_tensor 0 [hd (shape ex_hidden), n_predict (ex_model [1, 1]), vsize (ex_model [1, 1])])
         \<and> snd (snd (tr ! n_predict (ex_model [1, 1])))
             = \<lparr>shape = [1, 2, 2], data = [1 / 2, 1 / 2, 1 / 2, 1 / 2]\<rparr>"
    using l z [unfolded b s0] e by blast
  show ?thesis using ex_forward ex_init_tied a c by blast
qed

subsection \<open>The candidates handed to the next step\<close>

lemma stable_topk_contract: "topk_contract stable_topk"
  unfolding topk_contract_def stable_topk_def
  by (auto intro: stable_topk_row_is_topk)

text \<open>
  Claim C10. At every step of the loop the candidate ids handed to the next step are, for
  each vector of that step's log-probabilities, the \<open>topK[i]\<close> vocabulary indices of
  highest log-probability, listed by descending probability. Here \<open>pss\<close> are the positions
  \<open>torch.topk\<close> chose in each vector; the ids handed on are these positions, vector after
  vector, and each list of positions is a top-k of its vector, whichever way ties were
  broken.
\<close>

theorem C10_topk_candidates:
  assumes "topk_contract sel"
    and "head_step sel m b i (state, ind, all_probs) = Inr (state', ind', all_probs')"
  shows "\<exists>fed logits k pss.
           mix_state m i state ind = Inr fed
         \<and> i < length (head m) \<and> linear_forward (head m ! i) fed = Inr logits
         \<and> i < length (top_k_tokens_per_head m) \<and> k = top_k_tokens_per_head m ! i
         \<and> last_rows (log_softmax logits) = map log_softmax_row (last_rows logits)
         \<and> pss = sel k (last_rows (log_softmax logits))
         \<and> data ind' = concat (map (map int) pss)
         \<and> length pss = length (last_rows (log_softmax logits))
         \<and> (\<forall>j < length pss. is_topk k (last_rows (log_softmax logits) ! j) (pss ! j))"
proof -
  from assms(2) obtain fed probs preds ap1 where
    fed: "mix_state m i state ind = Inr fed" and
    pr: "predict sel m i fed = Inr (probs, preds)" and
    br: "branch m b i fed preds = Inr (state', ind')"
    unfolding head_step_def by (auto simp: rbind_Inr_iff)
  from pr obtain logits where
    hi: "i < length (head m)" and lg: "linear_forward (head m ! i) fed = Inr logits" and
    probs: "probs = log_softmax logits" and
    ki: "i < length (top_k_tokens_per_head m)" and
    tk: "topk sel (top_k_tokens_per_head m ! i) probs = Inr preds"
    unfolding predict_def Let_def by (auto simp: rbind_Inr_iff nth_res_def split: if_splits)
  define k where "k = top_k_tokens_per_head m ! i"
  define rs where "rs = last_rows (log_softmax logits)"
  define pss where "pss = sel k rs"
  from linear_forward_props [OF lg] obtain out where
    sl: "shape logits = butlast (shape fed) @ [out]" and wl: "wf_tensor logits" by blast
  then have ne: "shape logits \<noteq> []" and la: "last (shape logits) = out" by simp_all
  note ls = last_rows_log_softmax [OF wl ne]
  from tk have kd: "k \<le> out" and pd: "data preds = concat (map (map int) pss)"
    unfolding topk_def k_def probs pss_def rs_def using la ne
    by (auto simp: log_softmax_def last_dim_def split: if_splits)
  from br have "data ind' = data preds"
    unfolding branch_def by (auto simp: rbind_Inr_iff dest: reshape_infer_data)
  then have di: "data ind' = concat (map (map int) pss)" using pd by simp
  have rl: "k \<le> length r" if "r \<in> set rs" for r
  proof -
    from that
    obtain r0 where "r0 \<in> set (last_rows logits)" "r = log_softmax_row r0"
      unfolding rs_def ls(1) by auto
    then have "length r = out" using ls(2) la by simp
    then show "k \<le> length r" using kd by simp
  qed
  from assms(1) [unfolded topk_contract_def, rule_format, OF rl]
  have c: "length pss = length rs" "\<forall>j < length rs. is_topk k (rs ! j) (pss ! j)"
    unfolding pss_def by simp_all
  have e: "\<forall>j < length pss. is_topk k (rs ! j) (pss ! j)" using c by simp
  show ?thesis
    using fed hi lg ki k_def ls(1) pss_def di c(1) e unfolding rs_def by blast
qed

theorem C10_topk_candidates_witness:
  "topk_contract stable_topk
   \<and> head_step stable_topk (ex_model [1, 1]) 1 0 (ex_hidden, \<lparr>shape = [1, 1], data = [0]\<rparr>, empty_tensor 0 [1, 2, 2])
     = Inr (\<lparr>shape = [1, 1, 1], data = [0]\<rparr>, \<lparr>shape = [1, 1], data = [0]\<rparr>,
            \<lparr>shape = [1, 2, 2], data = [1 / 2, 1 / 2, 0, 0]\<rparr>)
   \<and> (\<exists>logits pss. 
          pss = stable_topk (top_k_tokens_per_head (ex_model [1, 1]) ! 0) (last_rows (log_softmax logits))
        \<and> data \<lparr>shape = [1, 1], data = [0 :: int]\<rparr> = concat (map (map int) pss)
        \<and> (\<forall>j < length pss.
              is_topk (top_k_tokens_per_head (ex_model [1, 1]) ! 0) (last_rows (log_softmax logits) ! j) (pss ! j)))"
  using C10_topk_candidates [OF stable_topk_contract ex_head_step] ex_head_step stable_topk_contract
  by blast

subsection \<open>Branching into more than one candidate\<close>

lemma topk_two_of_two:
  assumes "topk_contract sel" "length r = 2"
  shows "sel 2 [r] = [[0, 1]] \<or> sel 2 [r] = [[1, 0]]"
proof -
  have "length (sel 2 [r]) = length [r] \<and> (\<forall>j < length [r]. is_topk 2 ([r] ! j) (sel 2 [r] ! j))"
    by (rule assms(1) [unfolded topk_contract_def, rule_format, where k = 2 and rs = "[r]"])
      (use assms(2) in simp)
  then have len: "length (sel 2 [r]) = 1" and tk: "is_topk 2 r (sel 2 [r] ! 0)" by simp_all
  from len obtain ps where ps: "sel 2 [r] = [ps]"
    by (cases "sel 2 [r]") auto
  from tk ps have l2: "length ps = 2" and di: "distinct ps" and bd: "\<forall>p \<in> set ps. p < 2"
    using assms(2) by (simp_all add: is_topk_def)
  from l2 obtain p q where pq: "ps = [p, q]"
    by (cases ps; cases "tl ps") auto
  from di bd pq have "p < 2" "q < 2" "p \<noteq> q" by simp_all
  then have "(p = 0 \<and> q = 1) \<or> (p = 1 \<and> q = 0)" by auto
  then show ?thesis using ps pq by auto
qed

text \<open>
  Claim C2 promises the full output for every top-k list, values above 1 included. The loop
  lays the candidates out along the leading axis (\<open>reshape(-1, b, d)\<close>), so after a step
  that keeps two candidates the next step's probabilities have shape (2, b, vocab), and the
  assignment \<open>all_probs[:, i] = probs.exp()\<close> into a slice of shape (b, vocab) is refused by
  torch. On the two-head model with top-k [2, 1], whichever way \<open>torch.topk\<close> orders the two
  candidates of step 0:
\<close>

theorem C2_branching_raises:
  assumes "topk_contract sel"
  shows "MLPSpeculatorModel_forward sel (ex_model [2, 1]) 0 ex_hidden ex_ids
     = Inl (RuntimeError ''shape mismatch: value tensor cannot be broadcast to indexing result'')"
proof -
  have "length [- ln_class.ln 2, - ln_class.ln 2 :: real] = 2" by simp
  from topk_two_of_two [OF assms this]
  consider "sel 2 [[- ln_class.ln 2, - ln_class.ln 2]] = [[0, 1]]" | "sel 2 [[- ln_class.ln 2, - ln_class.ln 2]] = [[1, 0]]"
    by blast
  then show ?thesis
  proof cases
    case 1
    then show ?thesis by (simp add: ex_eval)
  next
    case 2
    then show ?thesis by (simp add: ex_eval)
  qed
qed

theorem C2_branching_raises_witness:
  "topk_contract stable_topk
   \<and> MLPSpeculatorModel_forward stable_topk (ex_model [2, 1]) 0 ex_hidden ex_ids
     = Inl (RuntimeError ''shape mismatch: value tensor cannot be broadcast to indexing result'')"
  using C2_branching_raises [OF stable_topk_contract] stable_topk_contract by simp

subsection \<open>The mixing weights are a point of the unit circle\<close>

lemma half_powr_bounds:
  assumes "0 < (t::real)"
  shows "0 < (1 / 2) powr t" and "(1 / 2) powr t < 1"
proof -
  show "0 < (1 / 2 :: real) powr t" by simp
  have "(1 / 2 :: real) powr t < (1 / 2) powr 0"
    by (rule powr_less_mono') (use assms in simp_all)
  then show "(1 / 2 :: real) powr t < 1" by simp
qed

lemma unit_circle_weights:
  assumes "0 < (sw::real)" "sw < 1"
  shows "sw\<^sup>2 + (sqrt (1 - sw\<^sup>2))\<^sup>2 = 1" and "0 < sqrt (1 - sw\<^sup>2)" and "sqrt (1 - sw\<^sup>2) < 1"
proof -
  have sq1: "sw\<^sup>2 < 1" using assms by (simp add: power_less_one_iff)
  have sq0: "0 < sw\<^sup>2" using assms by simp
  show "0 < sqrt (1 - sw\<^sup>2)" using sq1 by simp
  have "sqrt (1 - sw\<^sup>2) < sqrt 1" using sq0 by (subst real_sqrt_less_iff) simp
  then show "sqrt (1 - sw\<^sup>2) < 1" by simp
  show "sw\<^sup>2 + (sqrt (1 - sw\<^sup>2))\<^sup>2 = 1" using sq1 by simp
qed

text \<open>
  Claim C7. For every number of heads \<open>N \<ge> 1\<close> the computation of the state weight does not
  raise, and every model the constructor returns for \<open>N\<close> heads has
  \<open>state_weight = 0.5 powr (0.5 / N)\<close> and \<open>emb_weight = sqrt (1 - state_weight\<^sup>2)\<close>; in
  exact real arithmetic the two squares add up to one and both weights lie strictly
  between 0 and 1.
\<close>

theorem C7_mixing_weights:
  assumes "1 \<le> N"
  shows "state_weight_of N = Inr ((1 / 2) powr ((1 / 2) / real N))
       \<and> (\<forall>cfg prefix w oid m oid'.
             MLPSpeculatorModel_init cfg N prefix w oid = Inr (m, oid') \<longrightarrow>
               state_weight m = (1 / 2) powr ((1 / 2) / real N)
             \<and> emb_weight m = sqrt (1 - (state_weight m)\<^sup>2)
             \<and> (state_weight m)\<^sup>2 + (emb_weight m)\<^sup>2 = 1
             \<and> 0 < state_weight m \<and> state_weight m < 1
             \<and> 0 < emb_weight m \<and> emb_weight m < 1)"
proof (intro conjI allI impI)
  show sw: "state_weight_of N = Inr ((1 / 2) powr ((1 / 2) / real N))"
    unfolding state_weight_of_def using assms by simp
  fix cfg prefix w oid m oid'
  assume init: "MLPSpeculatorModel_init cfg N prefix w oid = Inr (m, oid')"
  have pos: "0 < (1 / 2) / real N" using assms by simp
  show s: "state_weight m = (1 / 2) powr ((1 / 2) / real N)"
    using init_fields(5) [OF init] sw by simp
  show e: "emb_weight m = sqrt (1 - (state_weight m)\<^sup>2)"
    using init_fields(6) [OF init] by (simp add: emb_weight_of_def)
  show s0: "0 < state_weight m" and s1: "state_weight m < 1"
    unfolding s using half_powr_bounds [OF pos] by simp_all
  show "(state_weight m)\<^sup>2 + (emb_weight m)\<^sup>2 = 1" "0 < emb_weight m" "emb_weight m < 1"
    unfolding e using unit_circle_weights [OF s0 s1] by simp_all
qed

theorem C7_mixing_weights_witness:
  "(1::nat) \<le> 2
   \<and> MLPSpeculatorModel_init (ex_config True False) 2 ''speculator'' ex_weights 0 = Inr (ex_model [1, 1], 5)
   \<and> state_weight_of 2 = Inr ((1 / 2) powr ((1 / 2) / real (2::nat)))
   \<and> state_weight (ex_model [1, 1]) = (1 / 2) powr ((1 / 2) / real (2::nat))
   \<and> emb_weight (ex_model [1, 1]) = sqrt (1 - (state_weight (ex_model [1, 1]))\<^sup>2)
   \<and> (state_weight (ex_model [1, 1]))\<^sup>2 + (emb_weight (ex_model [1, 1]))\<^sup>2 = 1
   \<and> 0 < state_weight (ex_model [1, 1]) \<and> state_weight (ex_model [1, 1]) < 1
   \<and> 0 < emb_weight (ex_model [1, 1]) \<and> emb_weight (ex_model [1, 1]) < 1"
proof -
  have n: "(1::nat) \<le> 2" by simp
  note T = C7_mixing_weights [OF n]
  from T [THEN conjunct2, rule_format, OF ex_init_tied] T [THEN conjunct1] ex_init_tied n
  show ?thesis by blast
qed

end
